theory Spec2Isabelle
  imports Main "HOL-Library.Multiset"
begin

section \<open>Device registry (models/User.js)\<close>

text \<open>
  The durable user entity and its embedded device list, as the Mongoose schema of
  \<^verbatim>\<open>models/User.js\<close> declares them. Dates are milliseconds since the epoch
  (\<^typ>\<open>int\<close>), as \<^verbatim>\<open>new Date(x) - new Date(y)\<close> compares them. A field that
  may be \<^verbatim>\<open>null\<close> or \<^verbatim>\<open>undefined\<close> is an \<^typ>\<open>'a option\<close>.
\<close>

record name_version =
  name :: string
  version :: string

record hardware =
  model :: string
  type :: string
  vendor :: string

record device_info =
  browser :: name_version
  os :: name_version
  device :: hardware
  ip :: string
  userAgent :: "string option"
  deviceToken :: "string option"

record device_entry = device_info +
  deviceId :: string
  firstSeen :: int
  lastSeen :: int
  loginCount :: int
  isActive :: bool

record last_device = device_info +
  lastUsed :: int

text \<open>
  The user document. \<open>oid\<close> is \<^verbatim>\<open>_id.toString()\<close>; \<open>active\<close> is the
  schema's account-level \<^verbatim>\<open>isActive\<close> (the device entries have an
  \<^verbatim>\<open>isActive\<close> of their own, which keeps the name).
  The timestamps \<^verbatim>\<open>createdAt\<close>, \<^verbatim>\<open>updatedAt\<close> and
  \<^verbatim>\<open>passwordChangedAt\<close> take no part in the session and device logic and are
  left out.
\<close>

record user =
  oid :: string
  email :: string
  password :: string
  firstName :: string
  lastName :: string
  active :: bool
  isVerified :: bool
  lastLogin :: "int option"
  lastDeviceInfo :: "last_device option"
  devices :: "device_entry list"

text \<open>\<^verbatim>\<open>a || b\<close> on strings that may be null: the empty string is falsy.\<close>

definition js_or :: "string option \<Rightarrow> string option \<Rightarrow> string option" where
  "js_or a b = (case a of None \<Rightarrow> b | Some t \<Rightarrow> if t = [] then b else Some t)"

definition or_default :: "string option \<Rightarrow> string \<Rightarrow> string" where
  "or_default a d = (case a of None \<Rightarrow> d | Some t \<Rightarrow> if t = [] then d else t)"

text \<open>\<^verbatim>\<open>Array.prototype.findIndex\<close>: the first index whose element satisfies the
  predicate, \<open>None\<close> for the source's \<^verbatim>\<open>-1\<close>.\<close>

fun findIndex :: "('a \<Rightarrow> bool) \<Rightarrow> 'a list \<Rightarrow> nat option" where
  "findIndex P [] = None"
| "findIndex P (x # xs) =
     (if P x then Some 0 else map_option Suc (findIndex P xs))"

text \<open>
  \<^verbatim>\<open>generateDeviceId\<close> hashes the string
  \<^verbatim>\<open>`${browser.name}-${os.name}-${device.type}-${device.vendor}`\<close> with MD5 and
  returns the hex digest. The digest function belongs to Node's \<^verbatim>\<open>crypto\<close>
  module and is a parameter here.
\<close>

definition deviceString :: "'a device_info_scheme \<Rightarrow> string" where
  "deviceString di =
     name (browser di) @ ''-'' @ name (os di) @ ''-'' @ type (device di) @ ''-'' @ vendor (device di)"

definition generateDeviceId :: "(string \<Rightarrow> string) \<Rightarrow> 'a device_info_scheme \<Rightarrow> string" where
  "generateDeviceId md5 di = md5 (deviceString di)"

text \<open>The entry \<^verbatim>\<open>updateDeviceInfo\<close> pushes for a fingerprint it has not seen.\<close>

definition newDevice :: "string \<Rightarrow> int \<Rightarrow> device_info \<Rightarrow> device_entry" where
  "newDevice did now di =
     \<lparr> browser = browser di, os = os di, device = device di, ip = ip di,
       userAgent = userAgent di, deviceToken = deviceToken di,
       deviceId = did, firstSeen = now, lastSeen = now, loginCount = 1, isActive = True \<rparr>"

text \<open>The update of an entry whose fingerprint is already in the list.\<close>

definition touchDevice :: "int \<Rightarrow> device_info \<Rightarrow> device_entry \<Rightarrow> device_entry" where
  "touchDevice now di e =
     e\<lparr> lastSeen := now, loginCount := loginCount e + 1, ip := ip di,
        deviceToken := js_or (deviceToken di) (deviceToken e), isActive := True \<rparr>"

text \<open>
  \<^verbatim>\<open>devices.sort((a, b) => new Date(b.lastSeen) - new Date(a.lastSeen))\<close>: newest
  first. \<^verbatim>\<open>Array.prototype.sort\<close> is stable, and so is \<^const>\<open>sort_key\<close>.
\<close>

definition sortByLastSeenDesc :: "device_entry list \<Rightarrow> device_entry list" where
  "sortByLastSeenDesc ds = sort_key (\<lambda>d. - lastSeen d) ds"

definition capDevices :: "device_entry list \<Rightarrow> device_entry list" where
  "capDevices ds = (if length ds > 10 then take 10 (sortByLastSeenDesc ds) else ds)"

definition updateDeviceInfo ::
  "(string \<Rightarrow> string) \<Rightarrow> int \<Rightarrow> user \<Rightarrow> device_info \<Rightarrow> user \<times> string" where
  "updateDeviceInfo md5 now u di =
     (let did = generateDeviceId md5 di;
          ds = (case findIndex (\<lambda>d. deviceId d = did) (devices u) of
                  Some i \<Rightarrow> (devices u)[i := touchDevice now di (devices u ! i)]
                | None \<Rightarrow> capDevices (devices u @ [newDevice did now di]));
          ldi = \<lparr> browser = browser di, os = os di, device = device di, ip = ip di,
                  userAgent = userAgent di, deviceToken = deviceToken di, lastUsed = now \<rparr>
      in (u\<lparr> devices := ds, lastDeviceInfo := Some ldi \<rparr>, did))"

text \<open>\<^verbatim>\<open>getDeviceHistory\<close> sorts the stored array in place and returns it.\<close>

definition getDeviceHistory :: "user \<Rightarrow> user \<times> device_entry list" where
  "getDeviceHistory u =
     (let ds = sortByLastSeenDesc (devices u) in (u\<lparr> devices := ds \<rparr>, ds))"

text \<open>
  \<^verbatim>\<open>deactivateDevice\<close>: \<^verbatim>\<open>find\<close> returns the first entry with the given id;
  the entry is changed in place and the method answers \<^verbatim>\<open>true\<close>, or
  \<^verbatim>\<open>false\<close> when no entry has the id.
\<close>

definition deactivateDevice :: "user \<Rightarrow> string \<Rightarrow> user \<times> bool" where
  "deactivateDevice u did =
     (case findIndex (\<lambda>d. deviceId d = did) (devices u) of
        Some i \<Rightarrow> (u\<lparr> devices := (devices u)[i := (devices u ! i)\<lparr> isActive := False \<rparr>] \<rparr>, True)
      | None \<Rightarrow> (u, False))"


section \<open>The fast store (config/redis.js)\<close>

text \<open>
  Settings read from the environment with \<^verbatim>\<open>parseInt(process.env.X) || d\<close>: an
  unset or unparsable variable and the value \<open>0\<close> both give the default \<open>d\<close>. The
  model covers settings that parse to a natural number.
\<close>

record environment =
  SESSION_TIMEOUT :: "nat option"
  SESSION_REFRESH_THROTTLE :: "nat option"
  REFRESH_TOKEN_EXPIRE :: "nat option"
  LOCKOUT_TIME :: "nat option"

definition env_or :: "nat option \<Rightarrow> nat \<Rightarrow> nat" where
  "env_or v d = (case v of None \<Rightarrow> d | Some n \<Rightarrow> if n = 0 then d else n)"

definition sessionTimeout :: "environment \<Rightarrow> nat" where
  "sessionTimeout env = env_or (SESSION_TIMEOUT env) 300"

definition throttleWindow :: "environment \<Rightarrow> nat" where
  "throttleWindow env = env_or (SESSION_REFRESH_THROTTLE env) 30"

definition refreshTokenExpire :: "environment \<Rightarrow> nat" where
  "refreshTokenExpire env = env_or (REFRESH_TOKEN_EXPIRE env) 604800"

definition lockoutTime :: "environment \<Rightarrow> nat" where
  "lockoutTime env = env_or (LOCKOUT_TIME env) 900"

text \<open>
  The JSON documents the services write: a session record
  \<^verbatim>\<open>{userId, sessionId, createdAt, ...userData}\<close> carries the user data
  (email, first name, last name) of \<^verbatim>\<open>createSession\<close>; a refresh-token record
  \<^verbatim>\<open>{userId, sessionId, createdAt}\<close> carries none.
\<close>

record doc =
  userId :: string
  sessionId :: string
  createdAt :: int
  userData :: "(string \<times> string \<times> string) option"

text \<open>
  A stored string value, by the shape it was written in: a plain string
  (\<open>Text\<close>: a session id, \<^verbatim>\<open>'locked'\<close>), the decimal text of an integer
  (\<open>Num\<close>: a counter, \<^verbatim>\<open>Date.now().toString()\<close>), or the
  \<^verbatim>\<open>JSON.stringify\<close> of a document (\<open>Doc\<close>). \<^verbatim>\<open>JSON.parse\<close> gives the
  document back; \<^verbatim>\<open>parseInt\<close> gives the integer back and \<^verbatim>\<open>NaN\<close> on the other
  shapes. Every key family of the source is written in one shape only.
\<close>

datatype rvalue = Text string | Num int | Doc doc

text \<open>
  The store: the client's readiness (\<^verbatim>\<open>client.status === 'ready'\<close>), the string
  keys and the set keys, each entry with its expiry time in milliseconds (\<open>None\<close>:
  no expiry). The two key spaces are kept apart: the set keys of the source all
  start with \<^verbatim>\<open>user_refresh_tokens:\<close> and no string key does.
\<close>

record store =
  ready :: bool
  kv :: "string \<Rightarrow> (rvalue \<times> int option) option"
  sets :: "string \<Rightarrow> (string list \<times> int option) option"

text \<open>The store with no key, and the client connected.\<close>

definition empty_store :: store where
  "empty_store = \<lparr> ready = True, kv = (\<lambda>k. None), sets = (\<lambda>k. None) \<rparr>"

text \<open>An entry as a read at time \<open>now\<close> finds it: a key past its expiry is gone.\<close>

definition alive :: "int \<Rightarrow> ('a \<times> int option) option \<Rightarrow> ('a \<times> int option) option" where
  "alive now e =
     (case e of
        None \<Rightarrow> None
      | Some (v, None) \<Rightarrow> Some (v, None)
      | Some (v, Some t) \<Rightarrow> if now < t then Some (v, Some t) else None)"

definition expiry :: "int \<Rightarrow> nat \<Rightarrow> int" where
  "expiry now secs = now + 1000 * int secs"

subsection \<open>The commands of the client\<close>

text \<open>
  The commands of the source, on a client that is ready; \<^verbatim>\<open>TTL\<close>, which the source
  does not call, reports the expiry of a key in the statements below. The client's
  readiness is read once for each call of \<^verbatim>\<open>safeRedisOp\<close> and does not change
  within a request. A command that fails after an earlier command of the same
  operation was written (a timeout, a connection lost between two commands) is not
  modelled, and neither are requests that interleave: the properties below are about
  requests that run one after the other, with a client that is ready and whose
  commands succeed, or that is not ready at all.
\<close>

definition redis_get :: "int \<Rightarrow> store \<Rightarrow> string \<Rightarrow> rvalue option" where
  "redis_get now s k = map_option fst (alive now (kv s k))"

definition redis_ttl :: "int \<Rightarrow> store \<Rightarrow> string \<Rightarrow> int option option" where
  "redis_ttl now s k = map_option snd (alive now (kv s k))"

definition redis_setex :: "int \<Rightarrow> string \<Rightarrow> nat \<Rightarrow> rvalue \<Rightarrow> store \<Rightarrow> store" where
  "redis_setex now k secs v s = s\<lparr> kv := (kv s)(k \<mapsto> (v, Some (expiry now secs))) \<rparr>"

definition redis_set :: "string \<Rightarrow> rvalue \<Rightarrow> store \<Rightarrow> store" where
  "redis_set k v s = s\<lparr> kv := (kv s)(k \<mapsto> (v, None)) \<rparr>"

definition redis_del :: "string \<Rightarrow> store \<Rightarrow> store" where
  "redis_del k s = s\<lparr> kv := (kv s)(k := None), sets := (sets s)(k := None) \<rparr>"

text \<open>\<^verbatim>\<open>INCR\<close> creates the key at 1, keeps the expiry of a key it finds, and fails
  (\<open>None\<close>) on a value that is not an integer.\<close>

definition redis_incr :: "int \<Rightarrow> string \<Rightarrow> store \<Rightarrow> (int \<times> store) option" where
  "redis_incr now k s =
     (case alive now (kv s k) of
        None \<Rightarrow> Some (1, s\<lparr> kv := (kv s)(k \<mapsto> (Num 1, None)) \<rparr>)
      | Some (Num n, e) \<Rightarrow> Some (n + 1, s\<lparr> kv := (kv s)(k \<mapsto> (Num (n + 1), e)) \<rparr>)
      | Some (Text t, e) \<Rightarrow> None
      | Some (Doc d, e) \<Rightarrow> None)"

text \<open>\<^verbatim>\<open>EXPIRE\<close> re-arms the expiry of a key that exists and does nothing otherwise.\<close>

definition redis_expire :: "int \<Rightarrow> string \<Rightarrow> nat \<Rightarrow> store \<Rightarrow> store" where
  "redis_expire now k secs s =
     s\<lparr> kv := (case alive now (kv s k) of
                 None \<Rightarrow> kv s
               | Some (v, e) \<Rightarrow> (kv s)(k \<mapsto> (v, Some (expiry now secs)))),
        sets := (case alive now (sets s k) of
                 None \<Rightarrow> sets s
               | Some (ms, e) \<Rightarrow> (sets s)(k \<mapsto> (ms, Some (expiry now secs)))) \<rparr>"

definition redis_smembers :: "int \<Rightarrow> store \<Rightarrow> string \<Rightarrow> string list" where
  "redis_smembers now s k = (case alive now (sets s k) of None \<Rightarrow> [] | Some (ms, e) \<Rightarrow> ms)"

definition redis_sadd :: "int \<Rightarrow> string \<Rightarrow> string \<Rightarrow> store \<Rightarrow> store" where
  "redis_sadd now k m s =
     (case alive now (sets s k) of
        None \<Rightarrow> s\<lparr> sets := (sets s)(k \<mapsto> ([m], None)) \<rparr>
      | Some (ms, e) \<Rightarrow> s\<lparr> sets := (sets s)(k \<mapsto> (List.insert m ms, e)) \<rparr>)"

text \<open>\<^verbatim>\<open>SREM\<close>: a set that becomes empty is removed.\<close>

definition redis_srem :: "int \<Rightarrow> string \<Rightarrow> string \<Rightarrow> store \<Rightarrow> store" where
  "redis_srem now k m s =
     (case alive now (sets s k) of
        None \<Rightarrow> s
      | Some (ms, e) \<Rightarrow>
          (if removeAll m ms = [] then s\<lparr> sets := (sets s)(k := None) \<rparr>
           else s\<lparr> sets := (sets s)(k \<mapsto> (removeAll m ms, e)) \<rparr>))"

text \<open>JavaScript truthiness of a string read from the store.\<close>

fun truthy :: "rvalue \<Rightarrow> bool" where
  "truthy (Text t) = (t \<noteq> [])"
| "truthy (Num n) = True"
| "truthy (Doc d) = True"

subsection \<open>safeRedisOp\<close>

text \<open>
  \<^verbatim>\<open>safeRedisOp(operation, fallback)\<close> answers the fallback when the client is not
  ready, and when the operation throws. An operation of the model answers \<open>None\<close>
  where the source's throws; in every operation below that happens before its
  first write, so the store is the one it started from.
\<close>

definition safeRedisOp :: "(store \<Rightarrow> ('a \<times> store) option) \<Rightarrow> 'a \<Rightarrow> store \<Rightarrow> 'a \<times> store" where
  "safeRedisOp operation fallback s =
     (if \<not> ready s then (fallback, s)
      else case operation s of None \<Rightarrow> (fallback, s) | Some r \<Rightarrow> r)"

text \<open>\<^verbatim>\<open>data ? JSON.parse(data) : null\<close>: an absent key and the empty string give
  \<^verbatim>\<open>null\<close>, a document parses, and a value that is not a record the services
  wrote is a failed read (\<open>None\<close>, the fallback of the caller).\<close>

definition parseRecord :: "rvalue option \<Rightarrow> doc option option" where
  "parseRecord data =
     (case data of
        None \<Rightarrow> Some None
      | Some (Doc d) \<Rightarrow> Some (Some d)
      | Some (Text t) \<Rightarrow> if t = [] then Some None else None
      | Some (Num n) \<Rightarrow> None)"

subsection \<open>sessionService\<close>

definition createSession ::
  "environment \<Rightarrow> int \<Rightarrow> string \<Rightarrow> string \<Rightarrow> string \<times> string \<times> string \<Rightarrow> store \<Rightarrow> string \<times> store" where
  "createSession env now uid sid udata s =
     safeRedisOp (\<lambda>s.
        let sessionData = \<lparr> userId = uid, sessionId = sid, createdAt = now, userData = Some udata \<rparr>;
            s1 = redis_setex now (''session:'' @ sid) (sessionTimeout env) (Doc sessionData) s;
            s2 = redis_set (''active_session:'' @ uid) (Text sid) s1
        in Some (sid, s2)) sid s"

definition getSession :: "int \<Rightarrow> store \<Rightarrow> string \<Rightarrow> doc option" where
  "getSession now s sid =
     fst (safeRedisOp (\<lambda>s.
        map_option (\<lambda>r. (r, s)) (parseRecord (redis_get now s (''session:'' @ sid)))) None s)"

definition deleteSession :: "int \<Rightarrow> string \<Rightarrow> store \<Rightarrow> store" where
  "deleteSession now sid s =
     snd (safeRedisOp (\<lambda>s.
        case getSession now s sid of
          Some sessionData \<Rightarrow>
            Some ((), redis_del (''active_session:'' @ userId sessionData)
                        (redis_del (''session:'' @ sid) s))
        | None \<Rightarrow> Some ((), s)) () s)"

definition storeRefreshToken ::
  "environment \<Rightarrow> int \<Rightarrow> string \<Rightarrow> string \<Rightarrow> string \<Rightarrow> store \<Rightarrow> store" where
  "storeRefreshToken env now refreshToken uid sid s =
     snd (safeRedisOp (\<lambda>s.
        let tokenData = \<lparr> userId = uid, sessionId = sid, createdAt = now, userData = None \<rparr>;
            expire = refreshTokenExpire env;
            s1 = redis_setex now (''refresh_token:'' @ refreshToken) expire (Doc tokenData) s;
            s2 = redis_sadd now (''user_refresh_tokens:'' @ uid) refreshToken s1;
            s3 = redis_expire now (''user_refresh_tokens:'' @ uid) expire s2
        in Some ((), s3)) () s)"

definition getRefreshToken :: "int \<Rightarrow> store \<Rightarrow> string \<Rightarrow> doc option" where
  "getRefreshToken now s refreshToken =
     fst (safeRedisOp (\<lambda>s.
        map_option (\<lambda>r. (r, s))
          (parseRecord (redis_get now s (''refresh_token:'' @ refreshToken)))) None s)"

definition deleteRefreshToken :: "int \<Rightarrow> string \<Rightarrow> store \<Rightarrow> store" where
  "deleteRefreshToken now refreshToken s =
     snd (safeRedisOp (\<lambda>s.
        let tokenData = getRefreshToken now s refreshToken;
            s1 = redis_del (''refresh_token:'' @ refreshToken) s
        in case tokenData of
             Some td \<Rightarrow>
               if userId td \<noteq> []
               then Some ((), redis_srem now (''user_refresh_tokens:'' @ userId td) refreshToken s1)
               else Some ((), s1)
           | None \<Rightarrow> Some ((), s1)) () s)"

text \<open>The pointer key is written by \<^verbatim>\<open>SET\<close> with a session id only; a pointer of
  another shape is taken as a failed operation.\<close>

definition deleteAllUserSessions :: "int \<Rightarrow> string \<Rightarrow> store \<Rightarrow> store" where
  "deleteAllUserSessions now uid s =
     snd (safeRedisOp (\<lambda>s.
        case redis_get now s (''active_session:'' @ uid) of
          None \<Rightarrow> Some ((), redis_del (''active_session:'' @ uid) s)
        | Some (Text sid) \<Rightarrow>
            Some ((), redis_del (''active_session:'' @ uid)
                        (if sid \<noteq> [] then redis_del (''session:'' @ sid) s else s))
        | Some (Num n) \<Rightarrow> None
        | Some (Doc d) \<Rightarrow> None) () s)"

definition refreshSession :: "environment \<Rightarrow> int \<Rightarrow> string \<Rightarrow> bool \<Rightarrow> store \<Rightarrow> bool \<times> store" where
  "refreshSession env now sid force s =
     safeRedisOp (\<lambda>s.
        if \<not> force then
          (let lastRefreshKey = ''session_refresh:'' @ sid;
               recent = (case redis_get now s lastRefreshKey of
                           Some (Num lastRefresh) \<Rightarrow> now - lastRefresh < int (throttleWindow env) * 1000
                         | Some (Text t) \<Rightarrow> False
                         | Some (Doc d) \<Rightarrow> False
                         | None \<Rightarrow> False)
           in if recent then Some (True, s)
              else Some (True,
                     redis_expire now (''session:'' @ sid) (sessionTimeout env)
                       (redis_setex now lastRefreshKey (throttleWindow env) (Num now) s)))
        else Some (True, redis_expire now (''session:'' @ sid) (sessionTimeout env) s)) False s"

text \<open>The pipeline: one \<^verbatim>\<open>DEL\<close> for each token record, then one for the set.\<close>

definition deleteAllUserRefreshTokens :: "int \<Rightarrow> string \<Rightarrow> store \<Rightarrow> store" where
  "deleteAllUserRefreshTokens now uid s =
     snd (safeRedisOp (\<lambda>s.
        let refreshTokens = redis_smembers now s (''user_refresh_tokens:'' @ uid)
        in if length refreshTokens > 0
           then Some ((), redis_del (''user_refresh_tokens:'' @ uid)
                            (fold (\<lambda>token. redis_del (''refresh_token:'' @ token)) refreshTokens s))
           else Some ((), s)) () s)"

subsection \<open>failedAttemptsService\<close>

definition incrementFailedAttempts :: "environment \<Rightarrow> int \<Rightarrow> string \<Rightarrow> store \<Rightarrow> int \<times> store" where
  "incrementFailedAttempts env now identifier s =
     safeRedisOp (\<lambda>s.
        case redis_incr now (''failed_attempts:'' @ identifier) s of
          None \<Rightarrow> None
        | Some (attempts, s1) \<Rightarrow>
            Some (attempts, redis_expire now (''failed_attempts:'' @ identifier) (lockoutTime env) s1)) 1 s"

definition getFailedAttempts :: "int \<Rightarrow> store \<Rightarrow> string \<Rightarrow> int" where
  "getFailedAttempts now s identifier =
     fst (safeRedisOp (\<lambda>s.
        Some (case redis_get now s (''failed_attempts:'' @ identifier) of
                Some (Num n) \<Rightarrow> n
              | Some (Text t) \<Rightarrow> 0
              | Some (Doc d) \<Rightarrow> 0
              | None \<Rightarrow> 0, s)) 0 s)"

definition clearFailedAttempts :: "string \<Rightarrow> store \<Rightarrow> store" where
  "clearFailedAttempts identifier s =
     snd (safeRedisOp (\<lambda>s. Some ((), redis_del (''failed_attempts:'' @ identifier) s)) () s)"

definition lockAccount :: "environment \<Rightarrow> int \<Rightarrow> string \<Rightarrow> store \<Rightarrow> store" where
  "lockAccount env now identifier s =
     snd (safeRedisOp (\<lambda>s.
        Some ((), redis_setex now (''account_lock:'' @ identifier) (lockoutTime env) (Text ''locked'') s)) () s)"

definition isAccountLocked :: "int \<Rightarrow> store \<Rightarrow> string \<Rightarrow> bool" where
  "isAccountLocked now s identifier =
     fst (safeRedisOp (\<lambda>s.
        Some (case redis_get now s (''account_lock:'' @ identifier) of
                None \<Rightarrow> False
              | Some locked \<Rightarrow> truthy locked, s)) False s)"


section \<open>Strings of the handlers\<close>

text \<open>The decimal text of a number in a template literal.\<close>

fun show_nat :: "nat \<Rightarrow> string" where
  "show_nat n =
     (if n < 10 then [char_of (48 + n)]
      else show_nat (n div 10) @ [char_of (48 + n mod 10)])"

definition show_int :: "int \<Rightarrow> string" where
  "show_int i = (if i < 0 then CHR ''-'' # show_nat (nat (- i)) else show_nat (nat i))"

text \<open>\<^verbatim>\<open>String.prototype.toLowerCase\<close> on the ASCII letters.\<close>

definition toLowerCase :: "string \<Rightarrow> string" where
  "toLowerCase str =
     map (\<lambda>c. if 65 \<le> (of_char c :: nat) \<and> (of_char c :: nat) \<le> 90
               then char_of ((of_char c :: nat) + 32) else c) str"

fun join :: "string \<Rightarrow> string list \<Rightarrow> string" where
  "join sep [] = []"
| "join sep [x] = x"
| "join sep (x # y # ys) = x @ sep @ join sep (y # ys)"

section \<open>The durable record store\<close>

text \<open>The users collection, with the three queries the handlers make.\<close>

definition findByEmail :: "user list \<Rightarrow> string \<Rightarrow> user option" where
  "findByEmail db em = find (\<lambda>u. email u = toLowerCase em) db"

definition findById :: "user list \<Rightarrow> string \<Rightarrow> user option" where
  "findById db i = find (\<lambda>u. oid u = i) db"

definition save :: "user list \<Rightarrow> user \<Rightarrow> user list" where
  "save db u = map (\<lambda>x. if oid x = oid u then u else x) db"

section \<open>Tokens and the authentication middleware (middleware/auth.js)\<close>

text \<open>
  What the handlers take from libraries: the MD5 hex digest, \<^verbatim>\<open>bcrypt.compare\<close>
  (candidate, stored hash), \<^verbatim>\<open>jwt.sign\<close> for the two kinds of token and
  \<^verbatim>\<open>jwt.verify\<close>. An access token carries \<^verbatim>\<open>{userId, sessionId, email}\<close>, a
  refresh token \<^verbatim>\<open>{userId, sessionId, type: 'refresh'}\<close>.
\<close>

datatype jwt_result = Decoded string string string | TokenExpiredError | JsonWebTokenError

record externals =
  md5hex :: "string \<Rightarrow> string"
  bcrypt_compare :: "string \<Rightarrow> string \<Rightarrow> bool"
  sign_access :: "string \<times> string \<times> string \<Rightarrow> string"
  sign_refresh :: "string \<times> string \<Rightarrow> string"
  verify_access :: "string \<Rightarrow> jwt_result"
  verify_refresh :: "string \<Rightarrow> (string \<times> string) option"

definition generateTokens :: "externals \<Rightarrow> string \<Rightarrow> string \<Rightarrow> string \<Rightarrow> string \<times> string" where
  "generateTokens ext uid sid em = (sign_access ext (uid, sid, em), sign_refresh ext (uid, sid))"

text \<open>The \<^verbatim>\<open>req.user\<close> the middleware leaves for the handler.\<close>

record req_user =
  ru_userId :: string
  ru_sessionId :: string
  ru_email :: string

datatype reply = Reply nat string

text \<open>
  \<^verbatim>\<open>authenticateToken\<close>, from the bearer token of the header (\<open>None\<close>: no header,
  or no second word in it). All calls of \<^verbatim>\<open>Date.now()\<close> within one request read
  the same \<open>now\<close>.
\<close>

definition authenticateToken ::
  "externals \<Rightarrow> environment \<Rightarrow> int \<Rightarrow> string option \<Rightarrow> store \<Rightarrow> (reply + req_user) \<times> store" where
  "authenticateToken ext env now bearer s =
     (case bearer of
        None \<Rightarrow> (Inl (Reply 401 ''Access token required''), s)
      | Some token \<Rightarrow>
          if token = [] then (Inl (Reply 401 ''Access token required''), s)
          else (case verify_access ext token of
            TokenExpiredError \<Rightarrow> (Inl (Reply 401 ''Token expired''), s)
          | JsonWebTokenError \<Rightarrow> (Inl (Reply 401 ''Invalid token''), s)
          | Decoded uid sid em \<Rightarrow>
              (case getSession now s sid of
                 None \<Rightarrow> (Inl (Reply 401 ''Invalid or expired session''), s)
               | Some sessionData \<Rightarrow>
                   if userId sessionData \<noteq> uid then (Inl (Reply 401 ''Session mismatch''), s)
                   else
                     (Inr \<lparr> ru_userId = uid, ru_sessionId = sid,
                            ru_email = or_default (map_option fst (userData sessionData)) em \<rparr>,
                      snd (refreshSession env now sid False s)))))"

section \<open>The login handler (routes/auth.js)\<close>

datatype app_error =
    AuthenticationError string
  | ValidationError string
  | TooManyRequestsError string

text \<open>The result of \<^verbatim>\<open>UAParser\<close> on the user-agent header: each part may be missing.\<close>

record ua_result =
  ua_browser_name :: "string option"
  ua_browser_version :: "string option"
  ua_os_name :: "string option"
  ua_os_version :: "string option"
  ua_device_model :: "string option"
  ua_device_type :: "string option"
  ua_device_vendor :: "string option"

record login_request =
  req_email :: string
  req_password :: string
  req_deviceToken :: "string option"
  req_ip :: string
  req_userAgent :: "string option"
  req_ua :: ua_result
  req_errors :: "string list"

definition buildDeviceInfo :: "login_request \<Rightarrow> device_info" where
  "buildDeviceInfo req =
     \<lparr> browser = \<lparr> name = or_default (ua_browser_name (req_ua req)) ''Unknown'',
                   version = or_default (ua_browser_version (req_ua req)) ''Unknown'' \<rparr>,
       os = \<lparr> name = or_default (ua_os_name (req_ua req)) ''Unknown'',
              version = or_default (ua_os_version (req_ua req)) ''Unknown'' \<rparr>,
       device = \<lparr> model = or_default (ua_device_model (req_ua req)) ''Unknown'',
                  type = or_default (ua_device_type (req_ua req)) ''desktop'',
                  vendor = or_default (ua_device_vendor (req_ua req)) ''Unknown'' \<rparr>,
       ip = req_ip req,
       userAgent = req_userAgent req,
       deviceToken = js_or (req_deviceToken req) None \<rparr>"

record previous_device =
  pd_browser :: string
  pd_os :: string
  pd_deviceType :: string
  pd_deviceId :: string
  pd_lastSeen :: int

record public_profile =
  pp_id :: string
  pp_email :: string
  pp_firstName :: string
  pp_lastName :: string
  pp_isVerified :: bool
  pp_lastLogin :: "int option"
  pp_lastDeviceInfo :: "last_device option"

definition getPublicProfile :: "user \<Rightarrow> public_profile" where
  "getPublicProfile u =
     \<lparr> pp_id = oid u, pp_email = email u, pp_firstName = firstName u, pp_lastName = lastName u,
       pp_isVerified = isVerified u, pp_lastLogin = lastLogin u,
       pp_lastDeviceInfo = lastDeviceInfo u \<rparr>"

record login_response =
  accessToken :: string
  refreshToken :: string
  profile :: public_profile
  resp_deviceId :: string
  isNewDevice :: bool
  totalDevices :: nat
  deviceLogout :: "previous_device option"

definition describePrevious :: "device_entry \<Rightarrow> previous_device" where
  "describePrevious d =
     \<lparr> pd_browser = or_default (Some (name (browser d))) ''Unknown Browser'',
       pd_os = or_default (Some (name (os d))) ''Unknown OS'',
       pd_deviceType = or_default (Some (type (device d))) ''desktop'',
       pd_deviceId = deviceId d,
       pd_lastSeen = lastSeen d \<rparr>"

text \<open>
  The part of the handler after the credentials have verified (lines 97 to 203): the
  failure counter is cleared, the sessions and refresh tokens of the user are deleted,
  the other devices are deactivated, then the new session and tokens are written and
  the user is saved. \<open>sid\<close> is the result of \<^verbatim>\<open>crypto.randomUUID()\<close>.
\<close>

definition issueLogin ::
  "externals \<Rightarrow> environment \<Rightarrow> int \<Rightarrow> string \<Rightarrow> login_request \<Rightarrow> user \<Rightarrow> user list \<Rightarrow> store
     \<Rightarrow> login_response \<times> user list \<times> store" where
  "issueLogin ext env now sid req u db s =
     (let deviceInfo = buildDeviceInfo req;
          currentDeviceId = generateDeviceId (md5hex ext) deviceInfo;
          existingDevice = find (\<lambda>d. deviceId d = currentDeviceId) (devices u);
          activeDevices = sortByLastSeenDesc
                            (filter (\<lambda>d. isActive d \<and> deviceId d \<noteq> currentDeviceId) (devices u));
          previousDeviceInfo = (case activeDevices of [] \<Rightarrow> None | d # ds \<Rightarrow> Some d);
          s1 = deleteAllUserSessions now (oid u) s;
          s2 = deleteAllUserRefreshTokens now (oid u) s1;
          u1 = u\<lparr> devices := map (\<lambda>d. if deviceId d \<noteq> currentDeviceId
                                        then d\<lparr> isActive := False \<rparr> else d) (devices u) \<rparr>;
          s3 = snd (createSession env now (oid u) sid (email u, firstName u, lastName u) s2);
          tokens = generateTokens ext (oid u) sid (email u);
          s4 = storeRefreshToken env now (snd tokens) (oid u) sid s3;
          u2 = u1\<lparr> lastLogin := Some now \<rparr>;
          upd = updateDeviceInfo (md5hex ext) now u2 deviceInfo;
          db1 = save db (fst upd)
      in (\<lparr> accessToken = fst tokens, refreshToken = snd tokens,
             profile = getPublicProfile (fst upd),
             resp_deviceId = snd upd,
             isNewDevice = (existingDevice = None),
             totalDevices = length (devices (fst upd)),
             deviceLogout = map_option describePrevious previousDeviceInfo \<rparr>, db1, s4))"

text \<open>
  \<^verbatim>\<open>router.post('/login')\<close>. A thrown error is \<open>Inl\<close>; the handler answers with
  the users collection and the store as it leaves them.
\<close>

definition login ::
  "externals \<Rightarrow> environment \<Rightarrow> int \<Rightarrow> string \<Rightarrow> login_request \<Rightarrow> user list \<Rightarrow> store
     \<Rightarrow> (app_error + login_response) \<times> user list \<times> store" where
  "login ext env now sid req db s =
     (let identifier = req_email req @ '':'' @ req_ip req in
      if req_errors req \<noteq> []
      then (Inl (ValidationError (''Validation failed: '' @ join '', '' (req_errors req))), db, s)
      else if isAccountLocked now s identifier
      then (Inl (TooManyRequestsError
              ''Account temporarily locked due to multiple failed attempts. Please try again later.''), db, s)
      else case findByEmail db (req_email req) of
        None \<Rightarrow>
          (Inl (AuthenticationError ''Invalid credentials''), db,
           snd (incrementFailedAttempts env now identifier s))
      | Some u \<Rightarrow>
          if \<not> bcrypt_compare ext (req_password req) (password u)
          then (let r = incrementFailedAttempts env now identifier s;
                    attempts = fst r
                in if attempts \<ge> 5
                   then (Inl (TooManyRequestsError
                           ''Account locked due to multiple failed attempts. Please try again in 15 minutes.''),
                         db, lockAccount env now identifier (snd r))
                   else (Inl (AuthenticationError
                           (''Invalid credentials. '' @ show_int (5 - attempts) @ '' attempts remaining.'')),
                         db, snd r))
          else if \<not> active u
          then (Inl (AuthenticationError ''Account is deactivated. Please contact support.''), db, s)
          else (let r = issueLogin ext env now sid req u db (clearFailedAttempts identifier s)
                in (Inr (fst r), snd r)))"

section \<open>The other session routes (routes/auth.js)\<close>

text \<open>\<^verbatim>\<open>router.post('/logout')\<close>, after the middleware has set \<^verbatim>\<open>req.user\<close>.\<close>

definition logout :: "int \<Rightarrow> req_user \<Rightarrow> store \<Rightarrow> reply \<times> store" where
  "logout now ru s =
     (Reply 200 ''Logged out successfully'',
      deleteAllUserRefreshTokens now (ru_userId ru) (deleteSession now (ru_sessionId ru) s))"

text \<open>\<^verbatim>\<open>router.post('/extend-session')\<close>.\<close>

definition extendSession :: "environment \<Rightarrow> int \<Rightarrow> req_user \<Rightarrow> store \<Rightarrow> reply \<times> store" where
  "extendSession env now ru s =
     (let r = refreshSession env now (ru_sessionId ru) False s
      in (if fst r then Reply 200 ''Session extended successfully''
          else Reply 400 ''Failed to extend session'', snd r))"

text \<open>
  \<^verbatim>\<open>router.get('/session-status')\<close> calls \<^verbatim>\<open>sessionService.getSessionTimeLeft\<close>.
  The object literal \<^verbatim>\<open>sessionService\<close> of config/redis.js (lines 82 to 206) has
  the nine methods modelled above and no property of that name, so the call
  expression throws a \<^verbatim>\<open>TypeError\<close>, which the handler's \<^verbatim>\<open>catch\<close> turns into
  the reply 500.
\<close>

datatype js_exception = TypeError string

definition sessionService_getSessionTimeLeft :: "int \<Rightarrow> store \<Rightarrow> string \<Rightarrow> js_exception + int" where
  "sessionService_getSessionTimeLeft now s sid =
     Inl (TypeError ''sessionService.getSessionTimeLeft is not a function'')"

datatype status_reply = SessionStatus int string | StatusFailure nat string

definition sessionStatus :: "int \<Rightarrow> req_user \<Rightarrow> store \<Rightarrow> status_reply" where
  "sessionStatus now ru s =
     (case sessionService_getSessionTimeLeft now s (ru_sessionId ru) of
        Inr timeLeft \<Rightarrow> SessionStatus timeLeft (ru_sessionId ru)
      | Inl e \<Rightarrow> StatusFailure 500 ''Failed to get session status'')"

text \<open>The route as mounted: the middleware, then the handler.\<close>

definition sessionStatusRoute ::
  "externals \<Rightarrow> environment \<Rightarrow> int \<Rightarrow> string option \<Rightarrow> store \<Rightarrow> status_reply \<times> store" where
  "sessionStatusRoute ext env now bearer s =
     (case authenticateToken ext env now bearer s of
        (Inl (Reply code msg), s1) \<Rightarrow> (StatusFailure code msg, s1)
      | (Inr ru, s1) \<Rightarrow> (sessionStatus now ru s1, s1))"

text \<open>\<^verbatim>\<open>router.post('/refresh-token')\<close>, from the token of the request body.\<close>

datatype refresh_reply = Refreshed string | Rejected nat string

definition refreshTokenRoute ::
  "externals \<Rightarrow> environment \<Rightarrow> int \<Rightarrow> string \<Rightarrow> user list \<Rightarrow> store \<Rightarrow> refresh_reply \<times> store" where
  "refreshTokenRoute ext env now token db s =
     (if token = [] then (Rejected 400 ''Validation failed'', s)
      else case verify_refresh ext token of
        None \<Rightarrow> (Rejected 401 ''Invalid or expired refresh token'', s)
      | Some (uid, sid) \<Rightarrow>
          (case getRefreshToken now s token of
             None \<Rightarrow> (Rejected 401 ''Refresh token not found or expired'', s)
           | Some tokenData \<Rightarrow>
               (case getSession now s sid of
                  None \<Rightarrow> (Rejected 401 ''Session expired'', deleteRefreshToken now token s)
                | Some sessionData \<Rightarrow>
                    (case findById db uid of
                       None \<Rightarrow> (Rejected 401 ''User not found or inactive'',
                                 deleteRefreshToken now token s)
                     | Some u \<Rightarrow>
                         if \<not> active u
                         then (Rejected 401 ''User not found or inactive'',
                               deleteRefreshToken now token s)
                         else (Refreshed (fst (generateTokens ext (oid u) sid (email u))),
                               snd (refreshSession env now sid False s))))))"


section \<open>Example data\<close>

text \<open>
  One registered user, a request from one browser, and stand-ins for the library
  functions, for the concrete runs below.
\<close>

definition example_ext :: externals where
  "example_ext =
     \<lparr> md5hex = (\<lambda>x. x),
       bcrypt_compare = (\<lambda>candidate hash. candidate = hash),
       sign_access = (\<lambda>(u, s, e). ''access.'' @ s),
       sign_refresh = (\<lambda>(u, s). ''refresh.'' @ s),
       verify_access = (\<lambda>t. JsonWebTokenError),
       verify_refresh = (\<lambda>t. if take 8 t = ''refresh.'' then Some (''u1'', drop 8 t) else None) \<rparr>"

definition example_env :: environment where
  "example_env = \<lparr> SESSION_TIMEOUT = None, SESSION_REFRESH_THROTTLE = None,
                   REFRESH_TOKEN_EXPIRE = None, LOCKOUT_TIME = None \<rparr>"

definition example_user :: user where
  "example_user =
     \<lparr> oid = ''u1'', email = ''a@example.com'', password = ''correct'', firstName = ''Ada'',
       lastName = ''Lovelace'', active = True, isVerified = False, lastLogin = None,
       lastDeviceInfo = None, devices = [] \<rparr>"

definition example_ua :: ua_result where
  "example_ua =
     \<lparr> ua_browser_name = Some ''Chrome'', ua_browser_version = Some ''126'',
       ua_os_name = Some ''Linux'', ua_os_version = None, ua_device_model = None,
       ua_device_type = None, ua_device_vendor = None \<rparr>"

definition example_request :: "string \<Rightarrow> string \<Rightarrow> login_request" where
  "example_request em pw =
     \<lparr> req_email = em, req_password = pw, req_deviceToken = None, req_ip = ''1.2.3.4'',
       req_userAgent = Some ''Mozilla/5.0'', req_ua = example_ua, req_errors = [] \<rparr>"

text \<open>\<open>n\<close> login attempts in a row with the same request, one second apart.\<close>

primrec failed_logins :: "nat \<Rightarrow> login_request \<Rightarrow> user list \<Rightarrow> store \<Rightarrow> store" where
  "failed_logins 0 req db s = s"
| "failed_logins (Suc n) req db s =
     snd (snd (login example_ext example_env (1000 * int n) ''sid'' req db (failed_logins n req db s)))"

text \<open>A first login with the store up, then a second one while the client is not ready.\<close>

definition first_login :: "(app_error + login_response) \<times> user list \<times> store" where
  "first_login =
     login example_ext example_env 0 ''s1'' (example_request ''a@example.com'' ''correct'')
       [example_user] empty_store"

definition login_during_outage :: "(app_error + login_response) \<times> user list \<times> store" where
  "login_during_outage =
     login example_ext example_env 1000 ''s2'' (example_request ''a@example.com'' ''correct'')
       (fst (snd first_login)) ((snd (snd first_login))\<lparr> ready := False \<rparr>)"

definition second_login :: "(app_error + login_response) \<times> user list \<times> store" where
  "second_login =
     login example_ext example_env 1000 ''s2'' (example_request ''a@example.com'' ''correct'')
       (fst (snd first_login)) (snd (snd first_login))"

text \<open>Device entries for the registry: entry \<open>i\<close> was last seen at time \<open>i\<close>.\<close>

definition example_info :: "string \<Rightarrow> device_info" where
  "example_info b =
     \<lparr> browser = \<lparr> name = b, version = ''1'' \<rparr>, os = \<lparr> name = ''Linux'', version = ''6'' \<rparr>,
       device = \<lparr> model = ''Unknown'', type = ''desktop'', vendor = ''Unknown'' \<rparr>,
       ip = ''1.2.3.4'', userAgent = None, deviceToken = None \<rparr>"

definition example_device :: "nat \<Rightarrow> device_entry" where
  "example_device i =
     newDevice (deviceString (example_info (show_nat i))) (int i) (example_info (show_nat i))"

definition user_with_devices :: "nat \<Rightarrow> user" where
  "user_with_devices n = example_user\<lparr> devices := map example_device [1..<Suc n] \<rparr>"

text \<open>A store with one session and a refresh marker written at time 1000.\<close>

definition session_store :: store where
  "session_store =
     \<lparr> ready = True,
       kv = [''session:s1'' \<mapsto>
               (Doc \<lparr> userId = ''u1'', sessionId = ''s1'', createdAt = 0,
                      userData = Some (''a@example.com'', ''Ada'', ''Lovelace'') \<rparr>, Some 300000),
             ''session_refresh:s1'' \<mapsto> (Num 1000, Some 31000)],
       sets = (\<lambda>k. None) \<rparr>"

text \<open>A store with a refresh-token record whose session is gone.\<close>

definition orphan_token_store :: store where
  "orphan_token_store =
     \<lparr> ready = True,
       kv = [''refresh_token:refresh.s1'' \<mapsto>
               (Doc \<lparr> userId = ''u1'', sessionId = ''s1'', createdAt = 0, userData = None \<rparr>,
                Some 604800000)],
       sets = [''user_refresh_tokens:u1'' \<mapsto> ([''refresh.s1''], Some 604800000)] \<rparr>"

text \<open>The same browser after an upgrade, on another address, with a push token.\<close>

definition upgraded_info :: device_info where
  "upgraded_info =
     (example_info ''Chrome'')\<lparr> browser := \<lparr> name = ''Chrome'', version = ''127'' \<rparr>,
        os := \<lparr> name = ''Linux'', version = ''7'' \<rparr>, ip := ''9.9.9.9'',
        userAgent := Some ''Mozilla/5.0'', deviceToken := Some ''push-1'' \<rparr>"


section \<open>Properties of the device registry\<close>

lemma findIndex_Some:
  "findIndex P xs = Some i \<Longrightarrow> i < length xs \<and> P (xs ! i)"
proof (induction xs arbitrary: i)
  case Nil
  then show ?case by simp
next
  case (Cons x xs)
  then show ?case by (auto split: if_splits)
qed

lemma findIndex_None: "findIndex P xs = None \<longleftrightarrow> (\<forall>x\<in>set xs. \<not> P x)"
  by (induction xs) auto

lemma findIndex_update_same:
  "findIndex P xs = Some i \<Longrightarrow> P y \<Longrightarrow> findIndex P (xs[i := y]) = Some i"
proof (induction xs arbitrary: i)
  case Nil
  then show ?case by simp
next
  case (Cons x xs)
  then show ?case by (auto split: if_splits)
qed

lemma sort_key_drop_last:
  assumes "length xs = Suc n"
  shows "mset (take n (sort_key f xs)) + {#last (sort_key f xs)#} = mset xs"
    and "\<forall>y\<in>set xs. f y \<le> f (last (sort_key f xs))"
proof -
  let ?L = "sort_key f xs"
  have len: "length ?L = Suc n" using assms by simp
  then have ne: "?L \<noteq> []" by (cases "sort_key f xs") simp_all
  have tk: "take n ?L = butlast ?L" using len by (simp add: butlast_conv_take)
  have split: "?L = butlast ?L @ [last ?L]" using ne by simp
  have "mset ?L = mset (butlast ?L) + {#last ?L#}"
    by (subst split) simp
  then show "mset (take n ?L) + {#last ?L#} = mset xs" using tk by simp
  have "sorted (map f ?L)" by simp
  then have "sorted (map f (butlast ?L) @ [f (last ?L)])"
    by (subst (asm) split) simp
  then have "\<forall>a\<in>set (butlast ?L). f a \<le> f (last ?L)"
    by (auto simp: sorted_append)
  moreover have "set xs = set (butlast ?L) \<union> {last ?L}"
  proof -
    have "set xs = set ?L" by simp
    also have "\<dots> = set (butlast ?L @ [last ?L])" using split by simp
    finally show ?thesis by simp
  qed
  ultimately show "\<forall>y\<in>set xs. f y \<le> f (last (sort_key f xs))" by auto
qed

lemma example_device_fields:
  "deviceId (example_device i) = deviceString (example_info (show_nat i))"
  "isActive (example_device i)"
  "lastSeen (example_device i) = int i"
  by (simp_all add: example_device_def newDevice_def)

lemma example_device_id: "deviceId (example_device 1) = ''1-Linux-desktop-Unknown''"
  by code_simp

text \<open>
  Claim C5 as stated fails: the second call does not answer \<^verbatim>\<open>false\<close>. On a
  user with one active device, the second \<^verbatim>\<open>deactivateDevice\<close> on its id finds
  the entry again and answers \<^verbatim>\<open>true\<close>.
\<close>

theorem deactivateDevice_second_call_true:
  "example_device 1 \<in> set (devices (user_with_devices 1))
   \<and> deviceId (example_device 1) = ''1-Linux-desktop-Unknown''
   \<and> isActive (example_device 1)
   \<and> snd (deactivateDevice (fst (deactivateDevice (user_with_devices 1) ''1-Linux-desktop-Unknown''))
             ''1-Linux-desktop-Unknown'') \<noteq> False"
  by code_simp

text \<open>
  Claim C5, as the code has it. For a user whose device list has an active device with
  id \<open>did\<close>, \<^verbatim>\<open>deactivateDevice(did)\<close> answers \<^verbatim>\<open>true\<close>, and a second call
  answers \<^verbatim>\<open>true\<close> again (the entry is still found) and leaves the user, and so
  the device list, as the first call left it. For every user and id, the method
  answers \<^verbatim>\<open>false\<close> exactly when no entry of the list has the id, and then changes
  nothing; and a second call always answers as the first and changes nothing.
\<close>

theorem deactivateDevice_twice:
  "(d \<in> set (devices u) \<and> deviceId d = did \<and> isActive d
      \<longrightarrow> snd (deactivateDevice u did) = True
        \<and> deactivateDevice (fst (deactivateDevice u did)) did = (fst (deactivateDevice u did), True))
   \<and> (snd (deactivateDevice u did) = False \<longleftrightarrow> did \<notin> deviceId ` set (devices u))
   \<and> (did \<notin> deviceId ` set (devices u) \<longrightarrow> fst (deactivateDevice u did) = u)
   \<and> deactivateDevice (fst (deactivateDevice u did)) did
        = (fst (deactivateDevice u did), snd (deactivateDevice u did))"
proof (cases "findIndex (\<lambda>d. deviceId d = did) (devices u)")
  case None
  then have absent: "did \<notin> deviceId ` set (devices u)"
    by (auto simp: findIndex_None)
  have same: "deactivateDevice u did = (u, False)"
    using None by (simp add: deactivateDevice_def)
  show ?thesis using absent same by auto
next
  case (Some i)
  then have il: "i < length (devices u)" and pi: "deviceId (devices u ! i) = did"
    using findIndex_Some [OF Some] by auto
  then have present: "did \<in> deviceId ` set (devices u)"
    by (metis image_eqI nth_mem)
  let ?e = "(devices u ! i)\<lparr> isActive := False \<rparr>"
  have again: "findIndex (\<lambda>d. deviceId d = did) ((devices u)[i := ?e]) = Some i"
    using findIndex_update_same [OF Some, of ?e] pi by simp
  have first: "snd (deactivateDevice u did) = True"
    using Some by (simp add: deactivateDevice_def)
  have second: "deactivateDevice (fst (deactivateDevice u did)) did = (fst (deactivateDevice u did), True)"
    using Some again il by (simp add: deactivateDevice_def)
  show ?thesis using present first second by simp
qed

text \<open>On the user with one device: its id twice, and an id that no entry has.\<close>

theorem deactivateDevice_twice_witness:
  "snd (deactivateDevice (user_with_devices 1) ''1-Linux-desktop-Unknown'') = True
   \<and> deactivateDevice (fst (deactivateDevice (user_with_devices 1) ''1-Linux-desktop-Unknown''))
        ''1-Linux-desktop-Unknown''
       = (fst (deactivateDevice (user_with_devices 1) ''1-Linux-desktop-Unknown''), True)
   \<and> snd (deactivateDevice (user_with_devices 1) ''9-Linux-desktop-Unknown'') = False
   \<and> fst (deactivateDevice (user_with_devices 1) ''9-Linux-desktop-Unknown'') = user_with_devices 1"
proof -
  have mem: "example_device 1 \<in> set (devices (user_with_devices 1))" by code_simp
  have act: "isActive (example_device 1)" by (simp add: example_device_fields)
  have absent: "''9-Linux-desktop-Unknown'' \<notin> deviceId ` set (devices (user_with_devices 1))"
    by code_simp
  note found = deactivateDevice_twice [where d = "example_device 1" and u = "user_with_devices 1"
      and did = "''1-Linux-desktop-Unknown''"]
  note missing = deactivateDevice_twice [where d = "example_device 1" and u = "user_with_devices 1"
      and did = "''9-Linux-desktop-Unknown''"]
  show ?thesis using found missing mem example_device_id act absent by blast
qed

text \<open>
  Claim C6. A device list of at most 10 entries has at most 10 entries after
  \<^verbatim>\<open>updateDeviceInfo\<close>. When the list has 10 entries and the fingerprint is new,
  the result has 10 entries and is the old list with the new entry, less one entry
  (the last of the list sorted by \<^verbatim>\<open>lastSeen\<close>, newest first), and no entry of the
  old list or the new one was last seen before the entry that is dropped.
\<close>

theorem updateDeviceInfo_bound:
  assumes "length (devices u) \<le> 10"
  shows "length (devices (fst (updateDeviceInfo md5 now u di))) \<le> 10
       \<and> (length (devices u) = 10
            \<and> generateDeviceId md5 di \<notin> deviceId ` set (devices u)
          \<longrightarrow> length (devices (fst (updateDeviceInfo md5 now u di))) = 10
              \<and> mset (devices (fst (updateDeviceInfo md5 now u di)))
                   + {#last (sortByLastSeenDesc (devices u @ [newDevice (generateDeviceId md5 di) now di]))#}
                  = mset (devices u @ [newDevice (generateDeviceId md5 di) now di])
              \<and> (\<forall>y\<in>set (devices u @ [newDevice (generateDeviceId md5 di) now di]).
                    lastSeen (last (sortByLastSeenDesc
                                (devices u @ [newDevice (generateDeviceId md5 di) now di])))
                      \<le> lastSeen y))"
proof (intro conjI impI)
  show "length (devices (fst (updateDeviceInfo md5 now u di))) \<le> 10"
    using assms
    by (auto simp: updateDeviceInfo_def Let_def capDevices_def sortByLastSeenDesc_def
        split: option.splits)
next
  let ?did = "generateDeviceId md5 di"
  let ?all = "devices u @ [newDevice ?did now di]"
  assume h: "length (devices u) = 10 \<and> ?did \<notin> deviceId ` set (devices u)"
  then have none: "findIndex (\<lambda>d. deviceId d = ?did) (devices u) = None"
    by (force simp: findIndex_None image_iff)
  have len: "length ?all = Suc 10" using h by simp
  have after: "devices (fst (updateDeviceInfo md5 now u di)) = take 10 (sortByLastSeenDesc ?all)"
    using none h by (simp add: updateDeviceInfo_def Let_def capDevices_def)
  show "length (devices (fst (updateDeviceInfo md5 now u di))) = 10"
    using len by (simp add: after sortByLastSeenDesc_def)
  show "mset (devices (fst (updateDeviceInfo md5 now u di))) + {#last (sortByLastSeenDesc ?all)#}
          = mset ?all"
    unfolding after sortByLastSeenDesc_def using sort_key_drop_last(1) [OF len] .
  have "\<forall>y\<in>set ?all. - lastSeen y \<le> - lastSeen (last (sort_key (\<lambda>d. - lastSeen d) ?all))"
    using sort_key_drop_last(2) [OF len, of "\<lambda>d. - lastSeen d"] .
  then show "\<forall>y\<in>set ?all. lastSeen (last (sortByLastSeenDesc ?all)) \<le> lastSeen y"
    by (simp add: sortByLastSeenDesc_def)
qed

text \<open>On a user with ten devices last seen at times 1 to 10, a login from an eleventh
  browser at time 100 drops the device last seen at time 1.\<close>

theorem updateDeviceInfo_bound_witness:
  "length (devices (fst (updateDeviceInfo (\<lambda>x. x) 100 (user_with_devices 10) (example_info ''Firefox'')))) = 10
   \<and> mset (devices (fst (updateDeviceInfo (\<lambda>x. x) 100 (user_with_devices 10) (example_info ''Firefox''))))
        + {#last (sortByLastSeenDesc (devices (user_with_devices 10)
                   @ [newDevice (generateDeviceId (\<lambda>x. x) (example_info ''Firefox'')) 100
                        (example_info ''Firefox'')]))#}
       = mset (devices (user_with_devices 10)
                 @ [newDevice (generateDeviceId (\<lambda>x. x) (example_info ''Firefox'')) 100
                      (example_info ''Firefox'')])
   \<and> deviceId (last (sortByLastSeenDesc (devices (user_with_devices 10)
                   @ [newDevice (generateDeviceId (\<lambda>x. x) (example_info ''Firefox'')) 100
                        (example_info ''Firefox'')])))
       = ''1-Linux-desktop-Unknown''"
proof -
  have ten: "length (devices (user_with_devices 10)) = 10"
    by (simp add: user_with_devices_def)
  then have bound: "length (devices (user_with_devices 10)) \<le> 10" by simp
  have fresh: "generateDeviceId (\<lambda>x. x) (example_info ''Firefox'')
                 \<notin> deviceId ` set (devices (user_with_devices 10))"
    by code_simp
  have oldest: "deviceId (last (sortByLastSeenDesc (devices (user_with_devices 10)
                   @ [newDevice (generateDeviceId (\<lambda>x. x) (example_info ''Firefox'')) 100
                        (example_info ''Firefox'')])))
       = ''1-Linux-desktop-Unknown''"
    by code_simp
  from updateDeviceInfo_bound [OF bound, of "\<lambda>x. x" 100 "example_info ''Firefox''"] ten fresh oldest
  show ?thesis by blast
qed

text \<open>
  Claim C8. Two device descriptions that agree on browser name, OS name, device type
  and device vendor get the same device id, whatever their versions, model, IP
  address, user agent and push token are. \<^const>\<open>generateDeviceId\<close> reads nothing
  but its argument, so repeated calls on one input give one id.
\<close>

theorem generateDeviceId_coarse:
  assumes "name (browser d1) = name (browser d2)" and "name (os d1) = name (os d2)"
    and "type (device d1) = type (device d2)" and "vendor (device d1) = vendor (device d2)"
  shows "generateDeviceId md5 d1 = generateDeviceId md5 d2"
  using assms by (simp add: generateDeviceId_def deviceString_def)

text \<open>A browser and its upgrade on another address: one device id.\<close>

theorem generateDeviceId_coarse_witness:
  "generateDeviceId (\<lambda>x. x) (example_info ''Chrome'') = generateDeviceId (\<lambda>x. x) upgraded_info
   \<and> version (browser (example_info ''Chrome'')) \<noteq> version (browser upgraded_info)
   \<and> ip (example_info ''Chrome'') \<noteq> ip upgraded_info"
proof -
  have b: "name (browser (example_info ''Chrome'')) = name (browser upgraded_info)"
    and o: "name (os (example_info ''Chrome'')) = name (os upgraded_info)"
    and t: "type (device (example_info ''Chrome'')) = type (device upgraded_info)"
    and v: "vendor (device (example_info ''Chrome'')) = vendor (device upgraded_info)"
    by (simp_all add: upgraded_info_def example_info_def)
  from generateDeviceId_coarse [OF b o t v, of "\<lambda>x. x"] show ?thesis
    by (simp add: upgraded_info_def example_info_def)
qed

section \<open>Properties of the session store\<close>

text \<open>
  Claim C9, on the code: the session-status handler answers 500 for every request
  that reaches it, since the operation it calls is not defined; the route, with the
  middleware before the handler, never answers with a time left.
\<close>

theorem sessionStatus_fails:
  "sessionStatus now ru s = StatusFailure 500 ''Failed to get session status''
   \<and> (\<forall>timeLeft sid. fst (sessionStatusRoute ext env now bearer s) \<noteq> SessionStatus timeLeft sid)"
  by (auto simp: sessionStatus_def sessionStatusRoute_def sessionService_getSessionTimeLeft_def
      split: prod.splits sum.splits reply.splits)

lemma env_or_pos: "0 < d \<Longrightarrow> 0 < env_or v d"
  by (simp add: env_or_def split: option.splits)

lemma sessionTimeout_pos: "0 < sessionTimeout env"
  by (simp add: sessionTimeout_def env_or_pos)

lemma redis_expire_rearms:
  assumes "redis_get now s k = Some v" and "0 < secs"
  shows "redis_get now (redis_expire now k secs s) k = Some v"
    and "redis_ttl now (redis_expire now k secs s) k = Some (Some (expiry now secs))"
proof -
  from assms(1) obtain e where a: "alive now (kv s k) = Some (v, e)"
    by (auto simp: redis_get_def)
  have "kv (redis_expire now k secs s) k = Some (v, Some (expiry now secs))"
    using a by (simp add: redis_expire_def)
  moreover have "now < expiry now secs" using assms(2) by (simp add: expiry_def)
  ultimately show "redis_get now (redis_expire now k secs s) k = Some v"
    and "redis_ttl now (redis_expire now k secs s) k = Some (Some (expiry now secs))"
    by (simp_all add: redis_get_def redis_ttl_def alive_def)
qed

lemma redis_get_setex_other:
  "k \<noteq> k' \<Longrightarrow> redis_get now (redis_setex now' k' secs v s) k = redis_get now s k"
  by (simp add: redis_get_def redis_setex_def)

lemma example_env_times:
  "lockoutTime example_env = 900" "sessionTimeout example_env = 300"
  "throttleWindow example_env = 30" "refreshTokenExpire example_env = 604800"
  by (simp_all add: lockoutTime_def sessionTimeout_def throttleWindow_def refreshTokenExpire_def
      example_env_def env_or_def)

lemma refreshSession_cases:
  assumes "ready s"
  shows "(redis_get now s (''session_refresh:'' @ sid) = Some (Num t)
            \<and> now - t < 1000 * int (throttleWindow env)
          \<longrightarrow> refreshSession env now sid False s = (True, s))
       \<and> ((force \<or> (\<forall>t. redis_get now s (''session_refresh:'' @ sid) = Some (Num t)
                         \<longrightarrow> 1000 * int (throttleWindow env) \<le> now - t))
            \<and> redis_get now s (''session:'' @ sid) = Some v
          \<longrightarrow> fst (refreshSession env now sid force s) = True
              \<and> redis_get now (snd (refreshSession env now sid force s)) (''session:'' @ sid) = Some v
              \<and> redis_ttl now (snd (refreshSession env now sid force s)) (''session:'' @ sid)
                  = Some (Some (expiry now (sessionTimeout env))))"
proof (intro conjI impI)
  assume "redis_get now s (''session_refresh:'' @ sid) = Some (Num t)
            \<and> now - t < 1000 * int (throttleWindow env)"
  then show "refreshSession env now sid False s = (True, s)"
    using assms by (simp add: refreshSession_def safeRedisOp_def Let_def mult.commute)
next
  assume h: "(force \<or> (\<forall>t. redis_get now s (''session_refresh:'' @ sid) = Some (Num t)
                         \<longrightarrow> 1000 * int (throttleWindow env) \<le> now - t))
            \<and> redis_get now s (''session:'' @ sid) = Some v"
  let ?marked = "redis_setex now (''session_refresh:'' @ sid) (throttleWindow env) (Num now) s"
  have notrecent: "\<not> force \<Longrightarrow>
      (case redis_get now s (''session_refresh:'' @ sid) of
         Some (Num lastRefresh) \<Rightarrow> now - lastRefresh < int (throttleWindow env) * 1000
       | Some (Text t) \<Rightarrow> False | Some (Doc d) \<Rightarrow> False | None \<Rightarrow> False) = False"
    using h by (auto split: option.splits rvalue.splits simp: mult.commute)
  have post: "snd (refreshSession env now sid force s)
      = redis_expire now (''session:'' @ sid) (sessionTimeout env) (if force then s else ?marked)"
    using assms notrecent by (simp add: refreshSession_def safeRedisOp_def Let_def)
  have pre: "redis_get now (if force then s else ?marked) (''session:'' @ sid) = Some v"
    using h by (simp add: redis_get_setex_other)
  show "fst (refreshSession env now sid force s) = True"
    using assms by (simp add: refreshSession_def safeRedisOp_def Let_def)
  show "redis_get now (snd (refreshSession env now sid force s)) (''session:'' @ sid) = Some v"
    unfolding post using redis_expire_rearms(1) [OF pre sessionTimeout_pos] .
  show "redis_ttl now (snd (refreshSession env now sid force s)) (''session:'' @ sid)
                  = Some (Some (expiry now (sessionTimeout env)))"
    unfolding post using redis_expire_rearms(2) [OF pre sessionTimeout_pos] .
qed


lemma getSession_Some:
  "getSession now s sid = Some d \<longleftrightarrow> ready s \<and> redis_get now s (''session:'' @ sid) = Some (Doc d)"
  by (auto simp: getSession_def safeRedisOp_def parseRecord_def
      split: option.splits rvalue.splits if_splits)

lemma ready_refreshSession: "ready (snd (refreshSession env now sid force s)) = ready s"
  by (auto simp: refreshSession_def safeRedisOp_def Let_def redis_expire_def redis_setex_def
      split: option.splits rvalue.splits prod.splits)


text \<open>
  Claim C7. For every session that \<^const>\<open>getSession\<close> reads: when the marker key
  holds a refresh time less than the throttle window ago, \<^verbatim>\<open>refreshSession(sid, false)\<close>
  answers \<^verbatim>\<open>true\<close> and changes nothing in the store; when no such refresh is
  recorded, or when \<open>force\<close> is set, the call answers \<^verbatim>\<open>true\<close>, the session is
  read as before and its record expires one session timeout from now.
\<close>

theorem refreshSession_throttled:
  assumes "getSession now s sid = Some d"
  shows "(redis_get now s (''session_refresh:'' @ sid) = Some (Num t)
            \<and> now - t < 1000 * int (throttleWindow env)
          \<longrightarrow> refreshSession env now sid False s = (True, s))
       \<and> (force \<or> (\<forall>t. redis_get now s (''session_refresh:'' @ sid) = Some (Num t)
                         \<longrightarrow> 1000 * int (throttleWindow env) \<le> now - t)
          \<longrightarrow> fst (refreshSession env now sid force s) = True
              \<and> getSession now (snd (refreshSession env now sid force s)) sid = Some d
              \<and> redis_ttl now (snd (refreshSession env now sid force s)) (''session:'' @ sid)
                  = Some (Some (expiry now (sessionTimeout env))))"
proof -
  have up: "ready s" and rec: "redis_get now s (''session:'' @ sid) = Some (Doc d)"
    using assms by (simp_all add: getSession_Some)
  note cases = refreshSession_cases [OF up, of now sid t env force "Doc d"]
  show ?thesis
    using cases rec up
    by (auto simp: getSession_Some ready_refreshSession)
qed

text \<open>A marker written 19 seconds ago throttles; 39 seconds ago it has expired and the
  session is re-armed; a forced refresh re-arms in either case.\<close>

theorem refreshSession_throttled_witness:
  "refreshSession example_env 20000 ''s1'' False session_store = (True, session_store)
   \<and> fst (refreshSession example_env 40000 ''s1'' False session_store) = True
   \<and> redis_ttl 40000 (snd (refreshSession example_env 40000 ''s1'' False session_store)) ''session:s1''
       = Some (Some 340000)
   \<and> redis_ttl 20000 (snd (refreshSession example_env 20000 ''s1'' True session_store)) ''session:s1''
       = Some (Some 320000)"
proof -
  let ?d = "\<lparr> userId = ''u1'', sessionId = ''s1'', createdAt = 0,
              userData = Some (''a@example.com'', ''Ada'', ''Lovelace'') \<rparr>"
  have s20: "getSession 20000 session_store ''s1'' = Some ?d"
    and s40: "getSession 40000 session_store ''s1'' = Some ?d"
    by (simp_all add: getSession_def safeRedisOp_def redis_get_def alive_def parseRecord_def
        session_store_def)
  have marker: "redis_get 20000 session_store (''session_refresh:'' @ ''s1'') = Some (Num 1000)
                  \<and> 20000 - 1000 < 1000 * int (throttleWindow example_env)"
    by (simp add: session_store_def redis_get_def alive_def example_env_times)
  have expired: "False \<or> (\<forall>t. redis_get 40000 session_store (''session_refresh:'' @ ''s1'') = Some (Num t)
                         \<longrightarrow> 1000 * int (throttleWindow example_env) \<le> 40000 - t)"
    by (simp add: session_store_def redis_get_def alive_def)
  have a: "refreshSession example_env 20000 ''s1'' False session_store = (True, session_store)"
    using refreshSession_throttled [OF s20, of 1000 example_env] marker by blast
  have b: "fst (refreshSession example_env 40000 ''s1'' False session_store) = True
     \<and> redis_ttl 40000 (snd (refreshSession example_env 40000 ''s1'' False session_store)) (''session:'' @ ''s1'')
       = Some (Some (expiry 40000 (sessionTimeout example_env)))"
    using refreshSession_throttled [OF s40, of 0 example_env False] expired by blast
  have c: "redis_ttl 20000 (snd (refreshSession example_env 20000 ''s1'' True session_store)) (''session:'' @ ''s1'')
       = Some (Some (expiry 20000 (sessionTimeout example_env)))"
    using refreshSession_throttled [OF s20, of 0 example_env True] by blast
  show ?thesis using a b c by (simp add: expiry_def example_env_times)
qed

section \<open>Properties of the refresh-token exchange\<close>

lemma getRefreshToken_ready: "getRefreshToken now s token = Some td \<Longrightarrow> ready s"
  by (auto simp: getRefreshToken_def safeRedisOp_def split: if_splits)

lemma getRefreshToken_absent:
  "kv s (''refresh_token:'' @ token) = None \<Longrightarrow> getRefreshToken now s token = None"
  by (simp add: getRefreshToken_def safeRedisOp_def redis_get_def alive_def parseRecord_def)

lemma deleteRefreshToken_found:
  assumes "getRefreshToken now s token = Some td" and "userId td \<noteq> []"
  shows "deleteRefreshToken now token s
       = redis_srem now (''user_refresh_tokens:'' @ userId td) token
           (redis_del (''refresh_token:'' @ token) s)"
  using assms getRefreshToken_ready [OF assms(1)]
  by (simp add: deleteRefreshToken_def safeRedisOp_def Let_def)

lemma alive_later:
  "now \<le> now' \<Longrightarrow> alive now e = None \<Longrightarrow> alive now' e = None"
  by (auto simp: alive_def split: option.splits if_splits)

lemma redis_srem_removes:
  assumes "now \<le> now'"
  shows "token \<notin> set (redis_smembers now' (redis_srem now k token s) k)"
proof (cases "alive now (sets s k)")
  case None
  then have "alive now' (sets s k) = None" using assms alive_later by blast
  then show ?thesis using None by (simp add: redis_smembers_def redis_srem_def)
next
  case (Some a)
  obtain ms e where a: "a = (ms, e)" by (cases a)
  show ?thesis
  proof (cases "removeAll token ms = []")
    case True
    then show ?thesis using Some a
      by (simp add: redis_smembers_def redis_srem_def alive_def)
  next
    case False
    then show ?thesis using Some a
      by (auto simp: redis_smembers_def redis_srem_def alive_def split: option.splits if_splits)
  qed
qed

lemma redis_srem_kv: "kv (redis_srem now k m s) = kv s"
  by (simp add: redis_srem_def split: option.splits prod.splits)

text \<open>
  Claim C10. An exchange whose token verifies and has its record in the store, but
  whose session is gone or whose user is missing or inactive, is rejected with 401
  (session expired in the first case, user not found or inactive otherwise), and
  leaves the store as \<^const>\<open>deleteRefreshToken\<close> makes it: the token record is
  absent, the token is not in the token set of its user, and the same exchange
  repeated at any later time is rejected as token-not-found.
\<close>

theorem failed_exchange_deletes_token:
  assumes tok: "token \<noteq> []"
    and ver: "verify_refresh ext token = Some (uid, sid)"
    and found: "getRefreshToken now s token = Some td"
    and owner: "userId td \<noteq> []"
    and gone: "getSession now s sid = None \<or> findById db uid = None
                 \<or> (\<exists>u. findById db uid = Some u \<and> \<not> active u)"
    and later: "now \<le> now'"
  shows "fst (refreshTokenRoute ext env now token db s)
           = (if getSession now s sid = None then Rejected 401 ''Session expired''
              else Rejected 401 ''User not found or inactive'')
       \<and> snd (refreshTokenRoute ext env now token db s) = deleteRefreshToken now token s
       \<and> getRefreshToken now' (deleteRefreshToken now token s) token = None
       \<and> token \<notin> set (redis_smembers now' (deleteRefreshToken now token s)
                          (''user_refresh_tokens:'' @ userId td))
       \<and> fst (refreshTokenRoute ext env now' token db' (deleteRefreshToken now token s))
           = Rejected 401 ''Refresh token not found or expired''"
proof -
  let ?s' = "deleteRefreshToken now token s"
  have s': "?s' = redis_srem now (''user_refresh_tokens:'' @ userId td) token
                    (redis_del (''refresh_token:'' @ token) s)"
    using deleteRefreshToken_found [OF found owner] .
  have "kv ?s' (''refresh_token:'' @ token) = None"
    unfolding s' by (simp add: redis_srem_kv redis_del_def)
  then have absent: "getRefreshToken now' ?s' token = None"
    by (rule getRefreshToken_absent)
  have notmem: "token \<notin> set (redis_smembers now' ?s' (''user_refresh_tokens:'' @ userId td))"
    unfolding s' using redis_srem_removes [OF later] .
  have first: "fst (refreshTokenRoute ext env now token db s)
           = (if getSession now s sid = None then Rejected 401 ''Session expired''
              else Rejected 401 ''User not found or inactive'')
       \<and> snd (refreshTokenRoute ext env now token db s) = ?s'"
    using tok ver found gone
    by (auto simp: refreshTokenRoute_def split: option.splits)
  have again: "fst (refreshTokenRoute ext env now' token db' ?s')
           = Rejected 401 ''Refresh token not found or expired''"
    using tok ver absent by (simp add: refreshTokenRoute_def)
  show ?thesis using first absent notmem again by simp
qed

text \<open>A token whose session has expired: the first exchange answers session expired,
  the second token not found.\<close>

theorem failed_exchange_deletes_token_witness:
  "fst (refreshTokenRoute example_ext example_env 1000 ''refresh.s1'' [example_user] orphan_token_store)
     = Rejected 401 ''Session expired''
   \<and> getRefreshToken 2000 (deleteRefreshToken 1000 ''refresh.s1'' orphan_token_store) ''refresh.s1'' = None
   \<and> ''refresh.s1'' \<notin> set (redis_smembers 2000 (deleteRefreshToken 1000 ''refresh.s1'' orphan_token_store)
                             ''user_refresh_tokens:u1'')
   \<and> fst (refreshTokenRoute example_ext example_env 2000 ''refresh.s1'' [example_user]
            (deleteRefreshToken 1000 ''refresh.s1'' orphan_token_store))
     = Rejected 401 ''Refresh token not found or expired''"
proof -
  have tok: "''refresh.s1'' \<noteq> []" by simp
  have ver: "verify_refresh example_ext ''refresh.s1'' = Some (''u1'', ''s1'')"
    by (simp add: example_ext_def)
  have found: "getRefreshToken 1000 orphan_token_store ''refresh.s1''
                 = Some \<lparr> userId = ''u1'', sessionId = ''s1'', createdAt = 0, userData = None \<rparr>"
    by (simp add: getRefreshToken_def safeRedisOp_def redis_get_def alive_def parseRecord_def
        orphan_token_store_def)
  have owner: "userId \<lparr> userId = ''u1'', sessionId = ''s1'', createdAt = 0, userData = None \<rparr> \<noteq> []"
    by simp
  have nosession: "getSession 1000 orphan_token_store ''s1'' = None"
    by (simp add: getSession_def safeRedisOp_def redis_get_def alive_def parseRecord_def
        orphan_token_store_def)
  then have gone: "getSession 1000 orphan_token_store ''s1'' = None
                 \<or> findById [example_user] ''u1'' = None
                 \<or> (\<exists>u. findById [example_user] ''u1'' = Some u \<and> \<not> active u)"
    by simp
  have later: "(1000::int) \<le> 2000" by simp
  from failed_exchange_deletes_token [OF tok ver found owner gone later,
      of example_env "[example_user]"] nosession
  show ?thesis by simp
qed

section \<open>Properties of the login handler\<close>

subsection \<open>Session keys under the store operations\<close>

lemma kv_fold_del:
  "kv (fold (\<lambda>token. redis_del (f token)) ts s) k
     = (if k \<in> f ` set ts then None else kv s k)"
  by (induction ts arbitrary: s) (auto simp: redis_del_def)

lemma ready_fold_del: "ready (fold (\<lambda>token. redis_del (f token)) ts s) = ready s"
  by (induction ts arbitrary: s) (auto simp: redis_del_def)

lemma ready_clearFailedAttempts: "ready (clearFailedAttempts i s) = ready s"
  by (simp add: clearFailedAttempts_def safeRedisOp_def redis_del_def)

lemma ready_deleteAllUserSessions: "ready (deleteAllUserSessions now uid s) = ready s"
  by (simp add: deleteAllUserSessions_def safeRedisOp_def redis_del_def
      split: option.splits rvalue.splits)

lemma ready_deleteAllUserRefreshTokens: "ready (deleteAllUserRefreshTokens now uid s) = ready s"
  by (simp add: deleteAllUserRefreshTokens_def safeRedisOp_def redis_del_def Let_def ready_fold_del)

lemma ready_createSession: "ready (snd (createSession env now uid sid ud s)) = ready s"
  by (simp add: createSession_def safeRedisOp_def redis_set_def redis_setex_def Let_def)

lemma ready_storeRefreshToken: "ready (storeRefreshToken env now tok uid sid s) = ready s"
  by (simp add: storeRefreshToken_def safeRedisOp_def redis_setex_def redis_sadd_def
      redis_expire_def Let_def split: option.splits prod.splits)

lemma kv_clearFailedAttempts:
  "k \<noteq> ''failed_attempts:'' @ i \<Longrightarrow> kv (clearFailedAttempts i s) k = kv s k"
  by (simp add: clearFailedAttempts_def safeRedisOp_def redis_del_def)

lemma kv_deleteAllUserRefreshTokens:
  "(\<forall>t. k \<noteq> ''refresh_token:'' @ t) \<Longrightarrow> k \<noteq> ''user_refresh_tokens:'' @ uid \<Longrightarrow>
   kv (deleteAllUserRefreshTokens now uid s) k = kv s k"
  by (auto simp: deleteAllUserRefreshTokens_def safeRedisOp_def redis_del_def Let_def kv_fold_del)

lemma kv_storeRefreshToken:
  "k \<noteq> ''refresh_token:'' @ tok \<Longrightarrow> k \<noteq> ''user_refresh_tokens:'' @ uid \<Longrightarrow>
   kv (storeRefreshToken env now tok uid sid' s) k = kv s k"
  by (simp add: storeRefreshToken_def safeRedisOp_def redis_setex_def redis_sadd_def
      redis_expire_def Let_def alive_def split: option.splits prod.splits)

lemma kv_createSession_pointer:
  "ready s \<Longrightarrow> k = ''active_session:'' @ uid \<Longrightarrow>
   kv (snd (createSession env now uid sid ud s)) k = Some (Text sid, None)"
  by (simp add: createSession_def safeRedisOp_def redis_set_def redis_setex_def Let_def)

lemma kv_createSession_session:
  "ready s \<Longrightarrow> k = ''session:'' @ sid \<Longrightarrow>
   kv (snd (createSession env now uid sid ud s)) k
     = Some (Doc \<lparr> userId = uid, sessionId = sid, createdAt = now, userData = Some ud \<rparr>,
             Some (expiry now (sessionTimeout env)))"
  by (simp add: createSession_def safeRedisOp_def redis_set_def redis_setex_def Let_def)

lemma kv_createSession_other:
  "k \<noteq> ''session:'' @ sid \<Longrightarrow> k \<noteq> ''active_session:'' @ uid \<Longrightarrow>
   kv (snd (createSession env now uid sid ud s)) k = kv s k"
  by (simp add: createSession_def safeRedisOp_def redis_set_def redis_setex_def Let_def)

lemma kv_deleteAllUserSessions_other:
  "(\<forall>x. k \<noteq> ''session:'' @ x) \<Longrightarrow> k \<noteq> ''active_session:'' @ uid \<Longrightarrow>
   kv (deleteAllUserSessions now uid s) k = kv s k"
  by (simp add: deleteAllUserSessions_def safeRedisOp_def redis_del_def
      split: option.splits rvalue.splits)

lemma deleteAllUserSessions_evicts:
  assumes "ready s" and "kv s (''active_session:'' @ uid) = Some (Text sid, None)" and "sid \<noteq> []"
  shows "kv (deleteAllUserSessions now uid s) (''session:'' @ sid) = None"
  using assms
  by (simp add: deleteAllUserSessions_def safeRedisOp_def redis_get_def alive_def redis_del_def)

lemma issueLogin_store:
  "snd (snd (issueLogin ext env now sid req u db s))
     = storeRefreshToken env now (snd (generateTokens ext (oid u) sid (email u))) (oid u) sid
         (snd (createSession env now (oid u) sid (email u, firstName u, lastName u)
            (deleteAllUserRefreshTokens now (oid u) (deleteAllUserSessions now (oid u) s))))"
  by (simp add: issueLogin_def Let_def)

lemma issueLogin_ready: "ready (snd (snd (issueLogin ext env now sid req u db s))) = ready s"
  by (simp add: issueLogin_store ready_storeRefreshToken ready_createSession
      ready_deleteAllUserRefreshTokens ready_deleteAllUserSessions)

lemma issueLogin_pointer:
  assumes "ready s"
  shows "kv (snd (snd (issueLogin ext env now sid req u db s))) (''active_session:'' @ oid u)
           = Some (Text sid, None)"
proof -
  let ?s2 = "deleteAllUserRefreshTokens now (oid u) (deleteAllUserSessions now (oid u) s)"
  have "ready ?s2"
    using assms by (simp add: ready_deleteAllUserRefreshTokens ready_deleteAllUserSessions)
  then have "kv (snd (createSession env now (oid u) sid (email u, firstName u, lastName u) ?s2))
               (''active_session:'' @ oid u) = Some (Text sid, None)"
    by (rule kv_createSession_pointer) simp
  then show ?thesis
    by (simp add: issueLogin_store kv_storeRefreshToken)
qed

lemma issueLogin_session:
  assumes "ready s"
  shows "kv (snd (snd (issueLogin ext env now sid req u db s))) (''session:'' @ sid)
           = Some (Doc \<lparr> userId = oid u, sessionId = sid, createdAt = now,
                          userData = Some (email u, firstName u, lastName u) \<rparr>,
                   Some (expiry now (sessionTimeout env)))"
proof -
  let ?s2 = "deleteAllUserRefreshTokens now (oid u) (deleteAllUserSessions now (oid u) s)"
  have "ready ?s2"
    using assms by (simp add: ready_deleteAllUserRefreshTokens ready_deleteAllUserSessions)
  then have "kv (snd (createSession env now (oid u) sid (email u, firstName u, lastName u) ?s2))
               (''session:'' @ sid)
           = Some (Doc \<lparr> userId = oid u, sessionId = sid, createdAt = now,
                          userData = Some (email u, firstName u, lastName u) \<rparr>,
                   Some (expiry now (sessionTimeout env)))"
    by (rule kv_createSession_session) simp
  then show ?thesis
    by (simp add: issueLogin_store kv_storeRefreshToken)
qed

lemma issueLogin_evicts:
  assumes "ready s" and "kv s (''active_session:'' @ oid u) = Some (Text sid1, None)"
    and "sid1 \<noteq> []" and "sid1 \<noteq> sid"
  shows "kv (snd (snd (issueLogin ext env now sid req u db s))) (''session:'' @ sid1) = None"
proof -
  have "kv (deleteAllUserSessions now (oid u) s) (''session:'' @ sid1) = None"
    using deleteAllUserSessions_evicts [OF assms(1-3)] .
  then have "kv (deleteAllUserRefreshTokens now (oid u) (deleteAllUserSessions now (oid u) s))
               (''session:'' @ sid1) = None"
    by (simp add: kv_deleteAllUserRefreshTokens)
  then have "kv (snd (createSession env now (oid u) sid (email u, firstName u, lastName u)
                   (deleteAllUserRefreshTokens now (oid u) (deleteAllUserSessions now (oid u) s))))
               (''session:'' @ sid1) = None"
    using assms(4) by (simp add: kv_createSession_other)
  then show ?thesis
    by (simp add: issueLogin_store kv_storeRefreshToken)
qed

lemma issueLogin_lock_untouched:
  "kv (snd (snd (issueLogin ext env now sid req u db s))) (''account_lock:'' @ i)
     = kv s (''account_lock:'' @ i)"
  by (simp add: issueLogin_store kv_storeRefreshToken kv_createSession_other
      kv_deleteAllUserRefreshTokens kv_deleteAllUserSessions_other)

lemma issueLogin_tokens:
  "accessToken (fst (issueLogin ext env now sid req u db s)) = sign_access ext (oid u, sid, email u)"
  "refreshToken (fst (issueLogin ext env now sid req u db s)) = sign_refresh ext (oid u, sid)"
  by (simp_all add: issueLogin_def Let_def generateTokens_def)

lemma getSession_absent:
  "kv s (''session:'' @ sid) = None \<Longrightarrow> getSession now s sid = None"
  by (simp add: getSession_def safeRedisOp_def redis_get_def alive_def parseRecord_def)

subsection \<open>The branches of the handler\<close>

lemma login_success:
  assumes "req_errors req = []"
    and "\<not> isAccountLocked now s (req_email req @ '':'' @ req_ip req)"
    and "findByEmail db (req_email req) = Some u"
    and "bcrypt_compare ext (req_password req) (password u)"
    and "active u"
  shows "login ext env now sid req db s
       = (Inr (fst (issueLogin ext env now sid req u db
                     (clearFailedAttempts (req_email req @ '':'' @ req_ip req) s))),
          snd (issueLogin ext env now sid req u db
                 (clearFailedAttempts (req_email req @ '':'' @ req_ip req) s)))"
  using assms by (simp add: login_def Let_def)

lemma login_success_state:
  assumes "login ext env now sid req db s = (Inr resp, db', s')"
    and "findByEmail db (req_email req) = Some u"
  shows "s' = snd (snd (issueLogin ext env now sid req u db
                (clearFailedAttempts (req_email req @ '':'' @ req_ip req) s)))"
  using assms
  by (auto simp: login_def Let_def split: if_splits)

lemma success_triple:
  "\<not> isl (fst L) \<Longrightarrow> L = (Inr (projr (fst L)), fst (snd L), snd (snd L))"
  by (cases L, cases "fst L") simp_all

lemma absent_user_login:
  assumes "req_errors req = []"
    and "\<not> isAccountLocked now s (req_email req @ '':'' @ req_ip req)"
    and "findByEmail db (req_email req) = None"
  shows "login ext env now sid req db s
       = (Inl (AuthenticationError ''Invalid credentials''), db,
          snd (incrementFailedAttempts env now (req_email req @ '':'' @ req_ip req) s))"
  using assms by (simp add: login_def Let_def)

lemma wrong_password_login:
  assumes "req_errors req = []"
    and "\<not> isAccountLocked now s (req_email req @ '':'' @ req_ip req)"
    and "findByEmail db (req_email req) = Some u"
    and "\<not> bcrypt_compare ext (req_password req) (password u)"
  shows "login ext env now sid req db s
       = (if fst (incrementFailedAttempts env now (req_email req @ '':'' @ req_ip req) s) \<ge> 5
          then (Inl (TooManyRequestsError
                  ''Account locked due to multiple failed attempts. Please try again in 15 minutes.''),
                db, lockAccount env now (req_email req @ '':'' @ req_ip req)
                      (snd (incrementFailedAttempts env now (req_email req @ '':'' @ req_ip req) s)))
          else (Inl (AuthenticationError
                  (''Invalid credentials. ''
                   @ show_int (5 - fst (incrementFailedAttempts env now (req_email req @ '':'' @ req_ip req) s))
                   @ '' attempts remaining.'')),
                db, snd (incrementFailedAttempts env now (req_email req @ '':'' @ req_ip req) s)))"
  using assms by (simp add: login_def Let_def)

lemma locked_login:
  assumes "req_errors req = []"
    and "isAccountLocked now s (req_email req @ '':'' @ req_ip req)"
  shows "login ext env now sid req db s
       = (Inl (TooManyRequestsError
            ''Account temporarily locked due to multiple failed attempts. Please try again later.''),
          db, s)"
  using assms by (simp add: login_def Let_def)

lemma not_ready_isAccountLocked: "\<not> ready s \<Longrightarrow> isAccountLocked now s i = False"
  by (simp add: isAccountLocked_def safeRedisOp_def)

lemma not_ready_issueLogin_store:
  "\<not> ready s \<Longrightarrow> snd (snd (issueLogin ext env now sid req u db s)) = s"
  by (simp add: issueLogin_store storeRefreshToken_def createSession_def
      deleteAllUserRefreshTokens_def deleteAllUserSessions_def safeRedisOp_def)

lemma not_ready_clearFailedAttempts: "\<not> ready s \<Longrightarrow> clearFailedAttempts i s = s"
  by (simp add: clearFailedAttempts_def safeRedisOp_def)

text \<open>A login whose credentials verify while the client is not ready.\<close>

lemma login_unready:
  assumes "\<not> ready s" and "req_errors req = []" and "findByEmail db (req_email req) = Some u"
    and "bcrypt_compare ext (req_password req) (password u)" and "active u"
  shows "login ext env now sid req db s
           = (Inr (fst (issueLogin ext env now sid req u db s)),
              fst (snd (issueLogin ext env now sid req u db s)), s)"
proof -
  have nl: "\<not> isAccountLocked now s (req_email req @ '':'' @ req_ip req)"
    using assms(1) by (simp add: not_ready_isAccountLocked)
  have "snd (issueLogin ext env now sid req u db s)
          = (fst (snd (issueLogin ext env now sid req u db s)), s)"
    using not_ready_issueLogin_store [OF assms(1), of ext env now sid req u db]
    by (metis prod.collapse)
  then show ?thesis
    using assms(1)
    by (simp add: login_success [OF assms(2) nl assms(3-5)] not_ready_clearFailedAttempts)
qed

subsection \<open>The user a login saves\<close>

lemma updateDeviceInfo_fields:
  "oid (fst (updateDeviceInfo md5 now u di)) = oid u"
  "email (fst (updateDeviceInfo md5 now u di)) = email u"
  "password (fst (updateDeviceInfo md5 now u di)) = password u"
  "active (fst (updateDeviceInfo md5 now u di)) = active u"
  by (simp_all add: updateDeviceInfo_def Let_def)

lemma issueLogin_saves:
  "fst (snd (issueLogin ext env now sid req u db s))
     = save db (fst (updateDeviceInfo (md5hex ext) now
         (u\<lparr> devices := map (\<lambda>d. if deviceId d \<noteq> generateDeviceId (md5hex ext) (buildDeviceInfo req)
                                    then d\<lparr> isActive := False \<rparr> else d) (devices u),
             lastLogin := Some now \<rparr>)
         (buildDeviceInfo req)))"
  by (simp add: issueLogin_def Let_def)

lemma issueLogin_db:
  "\<exists>u'. fst (snd (issueLogin ext env now sid req u db s)) = save db u'
        \<and> oid u' = oid u \<and> email u' = email u \<and> password u' = password u \<and> active u' = active u"
  unfolding issueLogin_saves
  by (intro exI conjI, rule refl) (simp_all add: updateDeviceInfo_fields)

lemma findByEmail_save:
  assumes "findByEmail db e = Some u" and "oid u' = oid u" and "email u' = email u"
  shows "findByEmail (save db u') e = Some u'"
  using assms
proof (induction db)
  case Nil
  then show ?case by (simp add: findByEmail_def)
next
  case (Cons x db)
  show ?case
  proof (cases "email x = toLowerCase e")
    case True
    then have "x = u" using Cons.prems(1) by (simp add: findByEmail_def)
    then show ?thesis using True Cons.prems by (simp add: findByEmail_def save_def)
  next
    case False
    then have rest: "findByEmail db e = Some u" using Cons.prems(1) by (simp add: findByEmail_def)
    then have eu: "email u = toLowerCase e"
      by (auto simp: findByEmail_def dest: find_Some_iff [THEN iffD1])
    have ih: "findByEmail (save db u') e = Some u'" using Cons.IH [OF rest Cons.prems(2,3)] .
    show ?thesis
    proof (cases "oid x = oid u'")
      case True
      then show ?thesis using eu Cons.prems(3) by (simp add: findByEmail_def save_def)
    next
      case neq: False
      then show ?thesis using False ih by (simp add: findByEmail_def save_def)
    qed
  qed
qed

lemma login_success_user:
  assumes "login ext env now sid req db s = (Inr resp, db', s')"
    and "findByEmail db (req_email req) = Some u"
  shows "\<exists>u'. findByEmail db' (req_email req) = Some u'
           \<and> oid u' = oid u \<and> email u' = email u \<and> password u' = password u \<and> active u' = active u"
proof -
  have "db' = fst (snd (issueLogin ext env now sid req u db
                (clearFailedAttempts (req_email req @ '':'' @ req_ip req) s)))"
    using assms by (auto simp: login_def Let_def split: if_splits)
  then obtain u' where u': "db' = save db u'" "oid u' = oid u" "email u' = email u"
      "password u' = password u" "active u' = active u"
    using issueLogin_db [of ext env now sid req u db] by metis
  have "findByEmail db' (req_email req) = Some u'"
    unfolding u'(1) using findByEmail_save [OF assms(2) u'(2,3)] .
  then show ?thesis using u' by blast
qed

subsection \<open>The failure counter\<close>

lemma lockoutTime_pos: "0 < lockoutTime env"
  by (simp add: lockoutTime_def env_or_pos)

lemma incrementFailedAttempts_ready:
  "ready (snd (incrementFailedAttempts env now i s)) = ready s"
  by (auto simp: incrementFailedAttempts_def safeRedisOp_def redis_incr_def redis_expire_def
      split: option.splits prod.splits rvalue.splits)

lemma incrementFailedAttempts_other:
  "k \<noteq> ''failed_attempts:'' @ i \<Longrightarrow> kv (snd (incrementFailedAttempts env now i s)) k = kv s k"
  by (auto simp: incrementFailedAttempts_def safeRedisOp_def redis_incr_def redis_expire_def
      split: option.splits prod.splits rvalue.splits)

lemma incrementFailedAttempts_first:
  assumes "ready s" and "alive now (kv s (''failed_attempts:'' @ i)) = None"
  shows "fst (incrementFailedAttempts env now i s) = 1"
    and "kv (snd (incrementFailedAttempts env now i s)) (''failed_attempts:'' @ i)
           = Some (Num 1, Some (expiry now (lockoutTime env)))"
  using assms
  by (simp_all add: incrementFailedAttempts_def safeRedisOp_def redis_incr_def redis_expire_def
      alive_def)

lemma incrementFailedAttempts_next:
  assumes "ready s" and "alive now (kv s (''failed_attempts:'' @ i)) = Some (Num n, e)"
  shows "fst (incrementFailedAttempts env now i s) = n + 1"
    and "kv (snd (incrementFailedAttempts env now i s)) (''failed_attempts:'' @ i)
           = Some (Num (n + 1), Some (expiry now (lockoutTime env)))"
proof -
  have live: "alive now (Some (Num (n + 1), e)) = Some (Num (n + 1), e)"
    using assms(2) by (auto simp: alive_def split: option.splits if_splits prod.splits)
  show "fst (incrementFailedAttempts env now i s) = n + 1"
    using assms by (simp add: incrementFailedAttempts_def safeRedisOp_def redis_incr_def)
  show "kv (snd (incrementFailedAttempts env now i s)) (''failed_attempts:'' @ i)
           = Some (Num (n + 1), Some (expiry now (lockoutTime env)))"
    using assms live
    by (simp add: incrementFailedAttempts_def safeRedisOp_def redis_incr_def redis_expire_def)
qed

lemma isAccountLocked_absent:
  "kv s (''account_lock:'' @ i) = None \<Longrightarrow> isAccountLocked now s i = False"
  by (simp add: isAccountLocked_def safeRedisOp_def redis_get_def alive_def)

lemma lockAccount_sets:
  assumes "ready s"
  shows "ready (lockAccount env now i s)"
    and "kv (lockAccount env now i s) (''account_lock:'' @ i)
           = Some (Text ''locked'', Some (expiry now (lockoutTime env)))"
  using assms by (simp_all add: lockAccount_def safeRedisOp_def redis_setex_def)

lemma isAccountLocked_present:
  assumes "ready s" and "kv s (''account_lock:'' @ i) = Some (Text ''locked'', Some t)" and "now < t"
  shows "isAccountLocked now s i"
  using assms by (simp add: isAccountLocked_def safeRedisOp_def redis_get_def alive_def)

lemma getFailedAttempts_present:
  assumes "ready s" and "kv s (''failed_attempts:'' @ i) = Some (Num n, Some t)" and "now < t"
  shows "getFailedAttempts now s i = n"
  using assms by (simp add: getFailedAttempts_def safeRedisOp_def redis_get_def alive_def)

lemma counter_step:
  assumes "ready s"
    and "kv s (''failed_attempts:'' @ i)
           = (if n = 0 then None
              else Some (Num (int n), Some (expiry (1000 * int (n - 1)) (lockoutTime example_env))))"
  shows "fst (incrementFailedAttempts example_env (1000 * int n) i s) = int (Suc n)"
    and "kv (snd (incrementFailedAttempts example_env (1000 * int n) i s)) (''failed_attempts:'' @ i)
           = Some (Num (int (Suc n)), Some (expiry (1000 * int n) (lockoutTime example_env)))"
proof -
  let ?now = "1000 * int n"
  have "fst (incrementFailedAttempts example_env ?now i s) = int (Suc n)
      \<and> kv (snd (incrementFailedAttempts example_env ?now i s)) (''failed_attempts:'' @ i)
           = Some (Num (int (Suc n)), Some (expiry ?now (lockoutTime example_env)))"
  proof (cases "n = 0")
    case True
    then have a: "alive ?now (kv s (''failed_attempts:'' @ i)) = None"
      using assms(2) by (simp add: alive_def)
    show ?thesis
      using incrementFailedAttempts_first [OF assms(1) a, of example_env] True by simp
  next
    case False
    then have "kv s (''failed_attempts:'' @ i)
                 = Some (Num (int n), Some (expiry (1000 * int (n - 1)) (lockoutTime example_env)))"
      using assms(2) by simp
    moreover have "?now < expiry (1000 * int (n - 1)) (lockoutTime example_env)"
      using False by (simp add: expiry_def example_env_times)
    ultimately have a: "alive ?now (kv s (''failed_attempts:'' @ i))
                 = Some (Num (int n), Some (expiry (1000 * int (n - 1)) (lockoutTime example_env)))"
      by (simp add: alive_def)
    show ?thesis
      using incrementFailedAttempts_next [OF assms(1) a, of example_env] by (simp add: add.commute)
  qed
  then show "fst (incrementFailedAttempts example_env (1000 * int n) i s) = int (Suc n)"
    and "kv (snd (incrementFailedAttempts example_env (1000 * int n) i s)) (''failed_attempts:'' @ i)
           = Some (Num (int (Suc n)), Some (expiry (1000 * int n) (lockoutTime example_env)))"
    by simp_all
qed

subsection \<open>The example runs\<close>

lemma example_lookup:
  "findByEmail [example_user] ''a@example.com'' = Some example_user"
  "findByEmail [example_user] ''ghost@example.com'' = None"
  "findByEmail [] ''a@example.com'' = None"
  by (simp_all add: findByEmail_def toLowerCase_def example_user_def)

lemma example_request_fields:
  "req_errors (example_request em pw) = []"
  "req_email (example_request em pw) = em"
  "req_ip (example_request em pw) = ''1.2.3.4''"
  "req_password (example_request em pw) = pw"
  by (simp_all add: example_request_def)

lemma example_password:
  "bcrypt_compare example_ext ''correct'' (password example_user)"
  "\<not> bcrypt_compare example_ext ''guess'' (password example_user)"
  by (simp_all add: example_ext_def example_user_def)

lemma show_int_digit: "show_int 4 = ''4''" "show_int 1 = ''1''"
  by code_simp+

lemma first_login_eq:
  "first_login
     = (Inr (fst (issueLogin example_ext example_env 0 ''s1'' (example_request ''a@example.com'' ''correct'')
                    example_user [example_user] (clearFailedAttempts ''a@example.com:1.2.3.4'' empty_store))),
        snd (issueLogin example_ext example_env 0 ''s1'' (example_request ''a@example.com'' ''correct'')
               example_user [example_user] (clearFailedAttempts ''a@example.com:1.2.3.4'' empty_store)))"
proof -
  let ?req = "example_request ''a@example.com'' ''correct''"
  have valid: "req_errors ?req = []" by (simp add: example_request_fields)
  have found: "findByEmail [example_user] (req_email ?req) = Some example_user"
    by (simp add: example_request_fields example_lookup)
  have pw: "bcrypt_compare example_ext (req_password ?req) (password example_user)"
    by (simp add: example_request_fields example_password)
  have act: "active example_user" by (simp add: example_user_def)
  have unlocked: "\<not> isAccountLocked 0 empty_store (req_email ?req @ '':'' @ req_ip ?req)"
    by (simp add: isAccountLocked_absent empty_store_def)
  show ?thesis
    unfolding first_login_def
    using login_success [OF valid unlocked found pw act, of example_env "''s1''"]
    by (simp add: example_request_fields)
qed

lemma first_login_ok: "\<not> isl (fst first_login)"
  by (simp add: first_login_eq)

lemma first_login_store:
  "ready (snd (snd first_login))"
  "kv (snd (snd first_login)) ''active_session:u1'' = Some (Text ''s1'', None)"
  "kv (snd (snd first_login)) ''session:s1''
     = Some (Doc \<lparr> userId = ''u1'', sessionId = ''s1'', createdAt = 0,
                    userData = Some (''a@example.com'', ''Ada'', ''Lovelace'') \<rparr>, Some 300000)"
  "kv (snd (snd first_login)) ''account_lock:a@example.com:1.2.3.4'' = None"
proof -
  let ?c = "clearFailedAttempts ''a@example.com:1.2.3.4'' empty_store"
  have r: "ready ?c" by (simp add: ready_clearFailedAttempts empty_store_def)
  show "ready (snd (snd first_login))"
    using r by (simp add: first_login_eq issueLogin_ready)
  show "kv (snd (snd first_login)) ''active_session:u1'' = Some (Text ''s1'', None)"
    using issueLogin_pointer [OF r, of example_ext example_env 0 "''s1''" _ example_user]
    by (simp add: first_login_eq example_user_def)
  show "kv (snd (snd first_login)) ''session:s1''
     = Some (Doc \<lparr> userId = ''u1'', sessionId = ''s1'', createdAt = 0,
                    userData = Some (''a@example.com'', ''Ada'', ''Lovelace'') \<rparr>, Some 300000)"
    using issueLogin_session [OF r, of example_ext example_env 0 "''s1''" _ example_user]
    by (simp add: first_login_eq example_user_def example_env_times expiry_def)
  have "kv ?c (''account_lock:'' @ ''a@example.com:1.2.3.4'') = None"
    by (simp add: kv_clearFailedAttempts empty_store_def)
  then show "kv (snd (snd first_login)) ''account_lock:a@example.com:1.2.3.4'' = None"
    using issueLogin_lock_untouched [of example_ext example_env 0 "''s1''" _ example_user _ ?c "''a@example.com:1.2.3.4''"]
    by (simp add: first_login_eq)
qed

lemma first_login_user:
  "\<exists>u'. findByEmail (fst (snd first_login)) ''a@example.com'' = Some u'
        \<and> oid u' = ''u1'' \<and> email u' = ''a@example.com'' \<and> password u' = ''correct'' \<and> active u'"
proof -
  let ?req = "example_request ''a@example.com'' ''correct''"
  have found: "findByEmail [example_user] (req_email ?req) = Some example_user"
    by (simp add: example_request_fields example_lookup)
  have "login example_ext example_env 0 ''s1'' ?req [example_user] empty_store
          = (Inr (projr (fst first_login)), fst (snd first_login), snd (snd first_login))"
    using first_login_ok by (simp add: first_login_def [symmetric] first_login_eq)
  from login_success_user [OF this found] show ?thesis
    by (simp add: example_request_fields example_user_def)
qed

lemma second_login_ok: "\<not> isl (fst second_login)"
proof -
  let ?req = "example_request ''a@example.com'' ''correct''"
  obtain u' where u': "findByEmail (fst (snd first_login)) ''a@example.com'' = Some u'"
      "oid u' = ''u1''" "password u' = ''correct''" "active u'"
    using first_login_user by blast
  have valid: "req_errors ?req = []" by (simp add: example_request_fields)
  have found: "findByEmail (fst (snd first_login)) (req_email ?req) = Some u'"
    using u'(1) by (simp add: example_request_fields)
  have pw: "bcrypt_compare example_ext (req_password ?req) (password u')"
    using u'(3) by (simp add: example_request_fields example_ext_def)
  have unlocked: "\<not> isAccountLocked 1000 (snd (snd first_login)) (req_email ?req @ '':'' @ req_ip ?req)"
    by (simp add: example_request_fields isAccountLocked_absent first_login_store)
  show ?thesis
    unfolding second_login_def
    by (simp add: login_success [OF valid unlocked found pw u'(4)])
qed

subsection \<open>Two logins in a row\<close>

text \<open>
  Claim C1 as stated fails for a login that succeeds while the store is unreachable:
  the handler still answers with tokens. After a first login with the store up and a
  second one during an outage, both successful, the pointer key still holds the first
  session id and, once the store is back, \<^const>\<open>getSession\<close> on the first id
  answers the first session.
\<close>

theorem outage_login_keeps_first_session:
  "\<not> isl (fst first_login) \<and> \<not> isl (fst login_during_outage)
   \<and> refreshToken (projr (fst login_during_outage)) = ''refresh.s2''
   \<and> redis_get 2000 ((snd (snd login_during_outage))\<lparr> ready := True \<rparr>) ''active_session:u1''
       = Some (Text ''s1'')
   \<and> map_option sessionId
        (getSession 2000 ((snd (snd login_during_outage))\<lparr> ready := True \<rparr>) ''s1'') = Some ''s1''"
proof -
  let ?req = "example_request ''a@example.com'' ''correct''"
  let ?down = "(snd (snd first_login))\<lparr> ready := False \<rparr>"
  obtain u' where u': "findByEmail (fst (snd first_login)) ''a@example.com'' = Some u'"
      "oid u' = ''u1''" "password u' = ''correct''" "active u'"
    using first_login_user by blast
  have down: "\<not> ready ?down" by simp
  have valid: "req_errors ?req = []" by (simp add: example_request_fields)
  have found: "findByEmail (fst (snd first_login)) (req_email ?req) = Some u'"
    using u'(1) by (simp add: example_request_fields)
  have pw: "bcrypt_compare example_ext (req_password ?req) (password u')"
    using u'(3) by (simp add: example_request_fields example_ext_def)
  have out: "login_during_outage
      = (Inr (fst (issueLogin example_ext example_env 1000 ''s2'' ?req u' (fst (snd first_login)) ?down)),
         fst (snd (issueLogin example_ext example_env 1000 ''s2'' ?req u' (fst (snd first_login)) ?down)),
         ?down)"
    unfolding login_during_outage_def
    using login_unready [OF down valid found pw u'(4)] .
  have tok: "refreshToken (projr (fst login_during_outage)) = ''refresh.s2''"
    using u'(2) by (simp add: out issueLogin_tokens example_ext_def)
  have ptr: "redis_get 2000 ((snd (snd login_during_outage))\<lparr> ready := True \<rparr>) ''active_session:u1''
       = Some (Text ''s1'')"
    by (simp add: out redis_get_def alive_def first_login_store)
  have old: "map_option sessionId
        (getSession 2000 ((snd (snd login_during_outage))\<lparr> ready := True \<rparr>) ''s1'') = Some ''s1''"
    by (simp add: out getSession_def safeRedisOp_def redis_get_def alive_def parseRecord_def
        first_login_store)
  show ?thesis using first_login_ok tok ptr old by (simp add: out)
qed

text \<open>Two logins of one user in a row, with the store reachable.\<close>

lemma two_logins_evict:
  assumes up: "ready s"
    and first: "login ext env now1 sid1 req1 db s = (Inr resp1, db1, s1)"
    and second: "login ext env now2 sid2 req2 db1 s1 = (Inr resp2, db2, s2)"
    and user1: "findByEmail db (req_email req1) = Some u"
    and user2: "findByEmail db1 (req_email req2) = Some u'"
    and same: "oid u' = oid u"
    and ids: "sid1 \<noteq> []" "sid1 \<noteq> sid2"
  shows "redis_get now3 s2 (''active_session:'' @ oid u) = Some (Text sid2)
       \<and> getSession now3 s2 sid1 = None
       \<and> kv s2 (''session:'' @ sid2)
           = Some (Doc \<lparr> userId = oid u, sessionId = sid2, createdAt = now2,
                          userData = Some (email u', firstName u', lastName u') \<rparr>,
                   Some (expiry now2 (sessionTimeout env)))"
proof -
  let ?c1 = "clearFailedAttempts (req_email req1 @ '':'' @ req_ip req1) s"
  let ?c2 = "clearFailedAttempts (req_email req2 @ '':'' @ req_ip req2) s1"
  have s1: "s1 = snd (snd (issueLogin ext env now1 sid1 req1 u db ?c1))"
    using login_success_state [OF first user1] .
  have s2: "s2 = snd (snd (issueLogin ext env now2 sid2 req2 u' db1 ?c2))"
    using login_success_state [OF second user2] .
  have r1: "ready ?c1" using up by (simp add: ready_clearFailedAttempts)
  have ptr1: "kv s1 (''active_session:'' @ oid u) = Some (Text sid1, None)"
    unfolding s1 using issueLogin_pointer [OF r1] .
  have "ready s1" unfolding s1 using r1 by (simp add: issueLogin_ready)
  then have r2: "ready ?c2" by (simp add: ready_clearFailedAttempts)
  have ptr1': "kv ?c2 (''active_session:'' @ oid u') = Some (Text sid1, None)"
    using ptr1 same by (simp add: kv_clearFailedAttempts)
  have gone: "kv s2 (''session:'' @ sid1) = None"
    unfolding s2 using issueLogin_evicts [OF r2 ptr1' ids] .
  have ptr2: "kv s2 (''active_session:'' @ oid u) = Some (Text sid2, None)"
    unfolding s2 using issueLogin_pointer [OF r2, of ext env now2 sid2 req2 u' db1] same by simp
  have new: "kv s2 (''session:'' @ sid2)
           = Some (Doc \<lparr> userId = oid u, sessionId = sid2, createdAt = now2,
                          userData = Some (email u', firstName u', lastName u') \<rparr>,
                   Some (expiry now2 (sessionTimeout env)))"
    unfolding s2 using issueLogin_session [OF r2, of ext env now2 sid2 req2 u' db1] same by simp
  show ?thesis using gone ptr2 new
    by (simp add: getSession_absent redis_get_def alive_def)
qed

text \<open>The pointer key of a user holds one value, so at most one session id is both held
  by it and read by \<^const>\<open>getSession\<close>, in any store.\<close>

lemma pointer_names_one:
  "card {sid. redis_get now s (''active_session:'' @ uid) = Some (Text sid)
              \<and> getSession now s sid \<noteq> None} \<le> 1"
proof (cases "redis_get now s (''active_session:'' @ uid)")
  case None
  then show ?thesis by simp
next
  case (Some v)
  have "{sid. redis_get now s (''active_session:'' @ uid) = Some (Text sid)
              \<and> getSession now s sid \<noteq> None} \<subseteq> {sid. v = Text sid}"
    using Some by auto
  moreover have "{sid. v = Text sid} \<subseteq> (case v of Text t \<Rightarrow> {t} | Num n \<Rightarrow> {} | Doc d \<Rightarrow> {})"
    by (cases v) auto
  moreover have "card (case v of Text t \<Rightarrow> {t} | Num n \<Rightarrow> {} | Doc d \<Rightarrow> {}) \<le> 1"
    "finite (case v of Text t \<Rightarrow> {t} | Num n \<Rightarrow> {} | Doc d \<Rightarrow> {})"
    by (cases v; simp)+
  ultimately show ?thesis
    by (meson card_mono dual_order.trans)
qed

text \<open>
  Claim C1, as the code has it. When the client is ready and every command of the two
  requests succeeds: after two successful logins of one user in a row, with session
  ids \<open>sid1\<close> and \<open>sid2\<close> (distinct, the first not empty), the pointer key of the
  user holds \<open>sid2\<close>, the record of \<open>sid2\<close> is in the store, and
  \<^const>\<open>getSession\<close> on \<open>sid1\<close> answers \<^verbatim>\<open>null\<close>, at any later time. And in
  every store, at every time and for every user, at most one session record is
  reachable through the pointer key of the user.
\<close>

theorem second_login_evicts_first:
  "(ready s
     \<and> login ext env now1 sid1 req1 db s = (Inr resp1, db1, s1)
     \<and> login ext env now2 sid2 req2 db1 s1 = (Inr resp2, db2, s2)
     \<and> findByEmail db (req_email req1) = Some u
     \<and> findByEmail db1 (req_email req2) = Some u'
     \<and> oid u' = oid u \<and> sid1 \<noteq> [] \<and> sid1 \<noteq> sid2
    \<longrightarrow> redis_get now3 s2 (''active_session:'' @ oid u) = Some (Text sid2)
       \<and> getSession now3 s2 sid1 = None
       \<and> kv s2 (''session:'' @ sid2)
           = Some (Doc \<lparr> userId = oid u, sessionId = sid2, createdAt = now2,
                          userData = Some (email u', firstName u', lastName u') \<rparr>,
                   Some (expiry now2 (sessionTimeout env))))
   \<and> card {sid. redis_get t st (''active_session:'' @ uid) = Some (Text sid)
               \<and> getSession t st sid \<noteq> None} \<le> 1"
proof (intro conjI impI)
  assume h: "ready s
     \<and> login ext env now1 sid1 req1 db s = (Inr resp1, db1, s1)
     \<and> login ext env now2 sid2 req2 db1 s1 = (Inr resp2, db2, s2)
     \<and> findByEmail db (req_email req1) = Some u
     \<and> findByEmail db1 (req_email req2) = Some u'
     \<and> oid u' = oid u \<and> sid1 \<noteq> [] \<and> sid1 \<noteq> sid2"
  then have all: "redis_get now3 s2 (''active_session:'' @ oid u) = Some (Text sid2)
       \<and> getSession now3 s2 sid1 = None
       \<and> kv s2 (''session:'' @ sid2)
           = Some (Doc \<lparr> userId = oid u, sessionId = sid2, createdAt = now2,
                          userData = Some (email u', firstName u', lastName u') \<rparr>,
                   Some (expiry now2 (sessionTimeout env)))"
    using two_logins_evict [of s ext env now1 sid1 req1 db resp1 db1 s1 now2 sid2 req2 resp2 db2 s2 u u' now3]
    by blast
  from all show "redis_get now3 s2 (''active_session:'' @ oid u) = Some (Text sid2)" by simp
  from all show "getSession now3 s2 sid1 = None" by simp
  from all show "kv s2 (''session:'' @ sid2)
           = Some (Doc \<lparr> userId = oid u, sessionId = sid2, createdAt = now2,
                          userData = Some (email u', firstName u', lastName u') \<rparr>,
                   Some (expiry now2 (sessionTimeout env)))" by simp
next
  show "card {sid. redis_get t st (''active_session:'' @ uid) = Some (Text sid)
               \<and> getSession t st sid \<noteq> None} \<le> 1"
    by (rule pointer_names_one)
qed

text \<open>The two example logins with the store up.\<close>

theorem second_login_evicts_first_witness:
  "redis_get 5000 (snd (snd second_login)) ''active_session:u1'' = Some (Text ''s2'')
   \<and> getSession 5000 (snd (snd second_login)) ''s1'' = None
   \<and> card {sid. redis_get 5000 (snd (snd second_login)) (''active_session:'' @ ''u1'') = Some (Text sid)
               \<and> getSession 5000 (snd (snd second_login)) sid \<noteq> None} \<le> 1"
proof -
  let ?req = "example_request ''a@example.com'' ''correct''"
  obtain u' where u': "findByEmail (fst (snd first_login)) ''a@example.com'' = Some u'"
      "oid u' = ''u1''"
    using first_login_user by blast
  have up: "ready empty_store" by (simp add: empty_store_def)
  have first: "login example_ext example_env 0 ''s1'' ?req [example_user] empty_store
          = (Inr (projr (fst first_login)), fst (snd first_login), snd (snd first_login))"
    using first_login_ok by (simp add: first_login_def [symmetric] first_login_eq)
  have second: "login example_ext example_env 1000 ''s2'' ?req (fst (snd first_login)) (snd (snd first_login))
          = (Inr (projr (fst second_login)), fst (snd second_login), snd (snd second_login))"
    using success_triple [OF second_login_ok] unfolding second_login_def .
  have user1: "findByEmail [example_user] (req_email ?req) = Some example_user"
    by (simp add: example_request_fields example_lookup)
  have user2: "findByEmail (fst (snd first_login)) (req_email ?req) = Some u'"
    using u'(1) by (simp add: example_request_fields)
  have same: "oid u' = oid example_user" using u'(2) by (simp add: example_user_def)
  have ids: "''s1'' \<noteq> []" "''s1'' \<noteq> ''s2''" by simp_all
  note inst = second_login_evicts_first [where s = empty_store and ext = example_ext
      and env = example_env and ?now1.0 = 0 and ?sid1.0 = "''s1''" and ?req1.0 = ?req
      and db = "[example_user]" and ?resp1.0 = "projr (fst first_login)"
      and ?db1.0 = "fst (snd first_login)" and ?s1.0 = "snd (snd first_login)"
      and ?now2.0 = 1000 and ?sid2.0 = "''s2''" and ?req2.0 = ?req
      and ?resp2.0 = "projr (fst second_login)" and ?db2.0 = "fst (snd second_login)"
      and ?s2.0 = "snd (snd second_login)" and u = example_user and u' = u' and ?now3.0 = 5000
      and t = 5000 and st = "snd (snd second_login)" and uid = "''u1''"]
  have after: "redis_get 5000 (snd (snd second_login)) (''active_session:'' @ oid example_user)
                 = Some (Text ''s2'')
               \<and> getSession 5000 (snd (snd second_login)) ''s1'' = None"
    using inst up first second user1 user2 same ids by blast
  have one: "card {sid. redis_get 5000 (snd (snd second_login)) (''active_session:'' @ ''u1'') = Some (Text sid)
               \<and> getSession 5000 (snd (snd second_login)) sid \<noteq> None} \<le> 1"
    using inst by blast
  show ?thesis using after one by (simp add: example_user_def)
qed

subsection \<open>Login while the store is unreachable\<close>




subsection \<open>Failed attempts and the lock\<close>

text \<open>The store after \<open>n\<close> attempts in a row against an email that no user has.\<close>

lemma absent_user_attempts:
  assumes valid: "req_errors req = []" and absent: "findByEmail db (req_email req) = None"
  shows "ready (failed_logins n req db empty_store)
       \<and> (\<forall>i. kv (failed_logins n req db empty_store) (''account_lock:'' @ i) = None)
       \<and> kv (failed_logins n req db empty_store) (''failed_attempts:'' @ req_email req @ '':'' @ req_ip req)
           = (if n = 0 then None
              else Some (Num (int n), Some (expiry (1000 * int (n - 1)) (lockoutTime example_env))))"
proof (induction n)
  case 0
  show ?case by (simp add: empty_store_def)
next
  case (Suc n)
  let ?S = "failed_logins n req db empty_store"
  let ?i = "req_email req @ '':'' @ req_ip req"
  let ?now = "1000 * int n"
  have rdy: "ready ?S" and nolock: "\<forall>i. kv ?S (''account_lock:'' @ i) = None"
    using Suc.IH by simp_all
  have unlocked: "\<not> isAccountLocked ?now ?S ?i"
    using nolock by (simp add: isAccountLocked_absent)
  have step: "failed_logins (Suc n) req db empty_store
                = snd (incrementFailedAttempts example_env ?now ?i ?S)"
    by (simp add: absent_user_login [OF valid unlocked absent])
  have cnt: "kv (snd (incrementFailedAttempts example_env ?now ?i ?S)) (''failed_attempts:'' @ ?i)
               = Some (Num (int (Suc n)), Some (expiry ?now (lockoutTime example_env)))"
  proof (cases "n = 0")
    case True
    then have "alive ?now (kv ?S (''failed_attempts:'' @ ?i)) = None"
      using Suc.IH by (simp add: alive_def)
    from incrementFailedAttempts_first(2) [OF rdy this] True show ?thesis by simp
  next
    case False
    then have "kv ?S (''failed_attempts:'' @ ?i)
                 = Some (Num (int n), Some (expiry (1000 * int (n - 1)) (lockoutTime example_env)))"
      using Suc.IH by simp
    moreover have "?now < expiry (1000 * int (n - 1)) (lockoutTime example_env)"
      using False by (simp add: expiry_def lockoutTime_def example_env_def env_or_def)
    ultimately have "alive ?now (kv ?S (''failed_attempts:'' @ ?i))
                 = Some (Num (int n), Some (expiry (1000 * int (n - 1)) (lockoutTime example_env)))"
      by (simp add: alive_def)
    from incrementFailedAttempts_next(2) [OF rdy this] show ?thesis by (simp add: add.commute)
  qed
  show ?case
    unfolding step using rdy nolock cnt
    by (simp add: incrementFailedAttempts_ready incrementFailedAttempts_other)
qed

text \<open>The store after \<open>n\<close> attempts in a row with a wrong password, up to the fourth.\<close>

lemma wrong_password_attempts:
  assumes valid: "req_errors req = []" and found: "findByEmail db (req_email req) = Some u"
    and wrong: "\<not> bcrypt_compare example_ext (req_password req) (password u)"
  shows "n \<le> 4 \<Longrightarrow>
         ready (failed_logins n req db empty_store)
       \<and> kv (failed_logins n req db empty_store) (''account_lock:'' @ req_email req @ '':'' @ req_ip req) = None
       \<and> kv (failed_logins n req db empty_store) (''failed_attempts:'' @ req_email req @ '':'' @ req_ip req)
           = (if n = 0 then None
              else Some (Num (int n), Some (expiry (1000 * int (n - 1)) (lockoutTime example_env))))"
proof (induction n)
  case 0
  show ?case by (simp add: empty_store_def)
next
  case (Suc n)
  let ?S = "failed_logins n req db empty_store"
  let ?i = "req_email req @ '':'' @ req_ip req"
  let ?now = "1000 * int n"
  have ih: "ready ?S" "kv ?S (''account_lock:'' @ ?i) = None"
    "kv ?S (''failed_attempts:'' @ ?i)
       = (if n = 0 then None
          else Some (Num (int n), Some (expiry (1000 * int (n - 1)) (lockoutTime example_env))))"
    using Suc by simp_all
  have unlocked: "\<not> isAccountLocked ?now ?S ?i"
    using ih(2) by (simp add: isAccountLocked_absent)
  have few: "\<not> 5 \<le> fst (incrementFailedAttempts example_env ?now ?i ?S)"
    using counter_step(1) [OF ih(1) ih(3)] Suc.prems by simp
  have step: "failed_logins (Suc n) req db empty_store
                = snd (incrementFailedAttempts example_env ?now ?i ?S)"
    using few by (simp add: wrong_password_login [OF valid unlocked found wrong])
  show ?case
    unfolding step using ih counter_step(2) [OF ih(1) ih(3)]
    by (simp add: incrementFailedAttempts_ready incrementFailedAttempts_other)
qed

text \<open>
  The wrong-password path: the fifth wrong password for an existing user sets the
  lock, and a sixth attempt from the same identifier is rejected as locked whatever
  its password.
\<close>

lemma fifth_wrong_password_locks:
  assumes valid: "req_errors req = []" and found: "findByEmail db (req_email req) = Some u"
    and wrong: "\<not> bcrypt_compare example_ext (req_password req) (password u)"
  shows "fst (login example_ext example_env 4000 ''sid'' req db (failed_logins 4 req db empty_store))
           = Inl (TooManyRequestsError
               ''Account locked due to multiple failed attempts. Please try again in 15 minutes.'')"
    and "isAccountLocked 5000 (failed_logins 5 req db empty_store) (req_email req @ '':'' @ req_ip req)"
proof -
  let ?S = "failed_logins 4 req db empty_store"
  let ?i = "req_email req @ '':'' @ req_ip req"
  have inv: "ready ?S" "kv ?S (''account_lock:'' @ ?i) = None"
    "kv ?S (''failed_attempts:'' @ ?i)
       = (if (4::nat) = 0 then None
          else Some (Num (int 4), Some (expiry (1000 * int (4 - 1)) (lockoutTime example_env))))"
    using wrong_password_attempts [OF valid found wrong, of 4] by simp_all
  have unlocked: "\<not> isAccountLocked 4000 ?S ?i"
    using inv(2) by (simp add: isAccountLocked_absent)
  have five: "fst (incrementFailedAttempts example_env 4000 ?i ?S) = 5"
    using counter_step(1) [OF inv(1) inv(3)] by simp
  have fifth: "login example_ext example_env 4000 ''sid'' req db ?S
         = (Inl (TooManyRequestsError
               ''Account locked due to multiple failed attempts. Please try again in 15 minutes.''),
            db, lockAccount example_env 4000 ?i (snd (incrementFailedAttempts example_env 4000 ?i ?S)))"
    using five by (simp add: wrong_password_login [OF valid unlocked found wrong])
  then show "fst (login example_ext example_env 4000 ''sid'' req db ?S)
           = Inl (TooManyRequestsError
               ''Account locked due to multiple failed attempts. Please try again in 15 minutes.'')"
    by simp
  have S5: "failed_logins 5 req db empty_store
         = lockAccount example_env 4000 ?i (snd (incrementFailedAttempts example_env 4000 ?i ?S))"
    using fifth by (simp add: eval_nat_numeral)
  have r: "ready (snd (incrementFailedAttempts example_env 4000 ?i ?S))"
    using inv(1) by (simp add: incrementFailedAttempts_ready)
  show "isAccountLocked 5000 (failed_logins 5 req db empty_store) ?i"
    unfolding S5
    by (rule isAccountLocked_present [OF lockAccount_sets(1) [OF r] lockAccount_sets(2) [OF r]])
       (simp add: expiry_def example_env_times)
qed

lemma sixth_attempt_rejected:
  assumes valid: "req_errors req = []" and found: "findByEmail db (req_email req) = Some u"
    and wrong: "\<not> bcrypt_compare example_ext (req_password req) (password u)"
    and valid': "req_errors req' = []"
    and same: "req_email req' = req_email req" "req_ip req' = req_ip req"
  shows "fst (login example_ext example_env 5000 ''sid'' req' db (failed_logins 5 req db empty_store))
           = Inl (TooManyRequestsError
               ''Account temporarily locked due to multiple failed attempts. Please try again later.'')"
proof -
  have "isAccountLocked 5000 (failed_logins 5 req db empty_store) (req_email req' @ '':'' @ req_ip req')"
    using fifth_wrong_password_locks(2) [OF valid found wrong] same by simp
  from locked_login [OF valid' this] show ?thesis by simp
qed

text \<open>The path of an email that no user has: the counter reaches 5 and no lock is set.\<close>

lemma fifth_absent_user:
  assumes valid: "req_errors req = []" and absent: "findByEmail db (req_email req) = None"
  shows "fst (login example_ext example_env 4000 ''sid'' req db (failed_logins 4 req db empty_store))
           = Inl (AuthenticationError ''Invalid credentials'')"
    and "getFailedAttempts 5000 (failed_logins 5 req db empty_store)
           (req_email req @ '':'' @ req_ip req) = 5"
    and "\<not> isAccountLocked 5000 (failed_logins 5 req db empty_store)
           (req_email req @ '':'' @ req_ip req)"
    and "fst (login example_ext example_env 5000 ''sid'' req db (failed_logins 5 req db empty_store))
           = Inl (AuthenticationError ''Invalid credentials'')"
proof -
  let ?i = "req_email req @ '':'' @ req_ip req"
  note inv4 = absent_user_attempts [OF valid absent, of 4]
  note inv5 = absent_user_attempts [OF valid absent, of 5]
  have u4: "\<not> isAccountLocked 4000 (failed_logins 4 req db empty_store) ?i"
    using inv4 by (simp add: isAccountLocked_absent)
  show u5: "\<not> isAccountLocked 5000 (failed_logins 5 req db empty_store) ?i"
    using inv5 by (simp add: isAccountLocked_absent)
  show "fst (login example_ext example_env 4000 ''sid'' req db (failed_logins 4 req db empty_store))
           = Inl (AuthenticationError ''Invalid credentials'')"
    by (simp add: absent_user_login [OF valid u4 absent])
  show "fst (login example_ext example_env 5000 ''sid'' req db (failed_logins 5 req db empty_store))
           = Inl (AuthenticationError ''Invalid credentials'')"
    by (simp add: absent_user_login [OF valid u5 absent])
  have k5: "kv (failed_logins 5 req db empty_store) (''failed_attempts:'' @ ?i)
          = Some (Num 5, Some (expiry 4000 (lockoutTime example_env)))"
    using inv5 by simp
  have r5: "ready (failed_logins 5 req db empty_store)" using inv5 by simp
  show "getFailedAttempts 5000 (failed_logins 5 req db empty_store) ?i = 5"
    by (rule getFailedAttempts_present [OF r5 k5]) (simp add: expiry_def example_env_times)
qed

text \<open>
  Claim C3, on the code: five attempts in a row against an email that no user has.
  The fifth is answered with invalid credentials, not with a lockout; the counter
  stands at 5 and the lock flag is not set; the sixth attempt is not rejected as
  locked.
\<close>

theorem absent_user_fifth_attempt_not_locked:
  "fst (login example_ext example_env 4000 ''sid'' (example_request ''ghost@example.com'' ''guess'')
          [example_user]
          (failed_logins 4 (example_request ''ghost@example.com'' ''guess'') [example_user] empty_store))
     = Inl (AuthenticationError ''Invalid credentials'')
   \<and> getFailedAttempts 5000
        (failed_logins 5 (example_request ''ghost@example.com'' ''guess'') [example_user] empty_store)
        ''ghost@example.com:1.2.3.4'' = 5
   \<and> \<not> isAccountLocked 5000
        (failed_logins 5 (example_request ''ghost@example.com'' ''guess'') [example_user] empty_store)
        ''ghost@example.com:1.2.3.4''
   \<and> fst (login example_ext example_env 5000 ''sid'' (example_request ''ghost@example.com'' ''guess'')
          [example_user]
          (failed_logins 5 (example_request ''ghost@example.com'' ''guess'') [example_user] empty_store))
     = Inl (AuthenticationError ''Invalid credentials'')"
  using fifth_absent_user [of "example_request ''ghost@example.com'' ''guess''" "[example_user]"]
  by (simp add: example_request_fields example_lookup)

text \<open>
  Claim C4, on the code: the same request, with the same identifier and the same
  number of earlier failures (none, then four), against a collection without the
  user and against one with the user and another password. The messages differ at
  the first attempt; at the fifth the error kinds differ and only the existing user
  is locked.
\<close>

theorem absent_user_distinguishable:
  "fst (login example_ext example_env 0 ''sid'' (example_request ''a@example.com'' ''guess'')
          [] empty_store)
     = Inl (AuthenticationError ''Invalid credentials'')
   \<and> fst (login example_ext example_env 0 ''sid'' (example_request ''a@example.com'' ''guess'')
          [example_user] empty_store)
     = Inl (AuthenticationError ''Invalid credentials. 4 attempts remaining.'')
   \<and> fst (login example_ext example_env 4000 ''sid'' (example_request ''a@example.com'' ''guess'')
          [] (failed_logins 4 (example_request ''a@example.com'' ''guess'') [] empty_store))
     = Inl (AuthenticationError ''Invalid credentials'')
   \<and> \<not> isAccountLocked 5000
        (failed_logins 5 (example_request ''a@example.com'' ''guess'') [] empty_store)
        ''a@example.com:1.2.3.4''
   \<and> fst (login example_ext example_env 4000 ''sid'' (example_request ''a@example.com'' ''guess'')
          [example_user]
          (failed_logins 4 (example_request ''a@example.com'' ''guess'') [example_user] empty_store))
     = Inl (TooManyRequestsError
         ''Account locked due to multiple failed attempts. Please try again in 15 minutes.'')
   \<and> isAccountLocked 5000
        (failed_logins 5 (example_request ''a@example.com'' ''guess'') [example_user] empty_store)
        ''a@example.com:1.2.3.4''"
proof -
  let ?req = "example_request ''a@example.com'' ''guess''"
  have valid: "req_errors ?req = []" by (simp add: example_request_fields)
  have absent: "findByEmail [] (req_email ?req) = None"
    by (simp add: example_request_fields example_lookup)
  have found: "findByEmail [example_user] (req_email ?req) = Some example_user"
    by (simp add: example_request_fields example_lookup)
  have wrong: "\<not> bcrypt_compare example_ext (req_password ?req) (password example_user)"
    by (simp add: example_request_fields example_password)
  have unlocked: "\<not> isAccountLocked 0 empty_store (req_email ?req @ '':'' @ req_ip ?req)"
    by (simp add: isAccountLocked_absent empty_store_def)
  have one: "fst (incrementFailedAttempts example_env 0 (req_email ?req @ '':'' @ req_ip ?req) empty_store) = 1"
    by (rule incrementFailedAttempts_first(1)) (simp_all add: empty_store_def alive_def)
  have a: "fst (login example_ext example_env 0 ''sid'' ?req [] empty_store)
             = Inl (AuthenticationError ''Invalid credentials'')"
    by (simp add: absent_user_login [OF valid unlocked absent])
  have b: "fst (login example_ext example_env 0 ''sid'' ?req [example_user] empty_store)
             = Inl (AuthenticationError ''Invalid credentials. 4 attempts remaining.'')"
    using one by (simp add: wrong_password_login [OF valid unlocked found wrong] show_int_digit)
  note c = fifth_absent_user(1,3) [OF valid absent]
  note d = fifth_wrong_password_locks [OF valid found wrong]
  show ?thesis using a b c d by (simp add: example_request_fields)
qed

end
